theory Spec2Isabelle
  imports Main "HOL-Library.Finite_Map"
begin

section \<open>Log subscriptions of a job: data model\<close>

text \<open>
  The Go package \<open>services\<close> watches the chain's logs for a job. Go strings and byte
  slices are both sequences of bytes, and the source converts freely between them, so both
  are \<open>string\<close> here: a \<open>char\<close> is one byte, \<open>CHR 0x00\<close> the zero byte.
  An address is 20 bytes and a hash 32 bytes.
\<close>

type_synonym Address = string
type_synonym Hash = string

text \<open>\<open>types.Log\<close>: the fields the package reads.\<close>

record Log =
  Address :: Address
  Topics :: "Hash list"
  Data :: string

text \<open>
  \<open>models.Initiator\<close> and \<open>models.Job\<close>: the type of an initiator is a string in the
  source (\<open>presenters.Initiator.MarshalJSON\<close> switches on it, with a default case).
\<close>

record Initiator =
  Type :: string
  Address :: Address
  JobID :: string

record Job =
  ID :: string
  Initiators :: "Initiator list"

text \<open>
  Modelled from the spec: \<open>models.JSON\<close> is not among the sources. The spec calls the
  decoded payload a JSON-like tree; an object maps each of its keys to one value.
\<close>

datatype JSON =
    JNull
  | JBool bool
  | JNumber string
  | JString string
  | JArray "JSON list"
  | JObject "(string, JSON) fmap"

text \<open>\<open>models.RunResult\<close>, the run-input handed to the execution engine.\<close>

record RunResult =
  Data :: JSON

text \<open>
  \<open>rpc.ClientSubscription\<close>: \<open>Err\<close> is what the method \<open>Err()\<close> returns, the
  subscription's error channel, which is nil (\<open>None\<close>) for a zero-valued subscription.
\<close>

record ClientSubscription =
  ident :: nat
  Err :: "nat option"

record FilterQuery =
  FromBlock :: int
  Addresses :: "Address list"

subsection \<open>Faults, effects and the world\<close>

text \<open>
  A Go run-time panic is a value of \<open>fault\<close>. An error value is the message it carries;
  a combined error (\<open>multierr\<close>) is the list of the messages of its parts, nil the empty
  list.
\<close>

datatype fault =
    IndexOutOfRange
  | SliceBoundsOutOfRange
  | CloseOfClosedChannel
  | CloseOfNilChannel

datatype level = LDebug | LInfo | LWarn | LError

datatype effect =
    Logged level string
  | SubscribeCalled nat FilterQuery
  | Spawned string nat
  | RpcUnsubscribed nat
  | Closed nat
  | BeginRunCalled Job RunResult

text \<open>
  The world: how many channels \<open>make\<close> has created (a channel is its number), which
  channels are closed, and the effects so far, oldest first.
\<close>

record world =
  chans :: nat
  closed :: "nat set"
  trace :: "effect list"

type_synonym 'a outcome = "(fault + 'a) \<times> world"

text \<open>
  The collaborators outside the package: the JSON library, go-ethereum's address
  formatting, the head tracker and the transaction manager of the store, and the execution
  engine (\<open>BeginRun\<close>). Each is a parameter; nothing is assumed of any of them.
\<close>

record env =
  Unmarshal :: "string \<Rightarrow> string + JSON"
  Marshal :: "Log \<Rightarrow> string + string"
  Address_String :: "Address \<Rightarrow> string"
  Head :: int
  SubscribeToLogs :: "nat \<Rightarrow> FilterQuery \<Rightarrow> string + ClientSubscription"
  BeginRun :: "Job \<Rightarrow> RunResult \<Rightarrow> string option"

record RpcLogEvent =
  Log :: Log
  Job :: Job
  Initiator :: Initiator

record RpcLogSubscription =
  Job :: Job
  Initiator :: Initiator
  ReceiveLog :: "env \<Rightarrow> RpcLogEvent \<Rightarrow> world \<Rightarrow> unit outcome"
  logNotifications :: "nat option"
  errors :: "nat option"
  rpcSubscription :: "ClientSubscription option"

record JobSubscription =
  Job :: Job
  unsubscribers :: "RpcLogSubscription list"

definition emit :: "effect \<Rightarrow> world \<Rightarrow> world" where
  "emit e w = w\<lparr>trace := trace w @ [e]\<rparr>"

definition logger :: "level \<Rightarrow> string \<Rightarrow> world \<Rightarrow> world" where
  "logger lvl msg w = emit (Logged lvl msg) w"

text \<open>Indexing and slicing as Go does them: out of range is a panic.\<close>

definition index :: "'a list \<Rightarrow> nat \<Rightarrow> fault + 'a" where
  "index xs i = (if i < length xs then Inr (xs ! i) else Inl IndexOutOfRange)"

definition slice_from :: "'a list \<Rightarrow> nat \<Rightarrow> fault + 'a list" where
  "slice_from xs lo = (if lo \<le> length xs then Inr (drop lo xs) else Inl SliceBoundsOutOfRange)"

section \<open>Hex strings\<close>

text \<open>
  \<open>common.Hash.Hex\<close> (and \<open>String\<close>, which calls it) of go-ethereum: \<open>0x\<close> and two
  lower-case hex digits per byte.
\<close>

definition hextable :: string where
  "hextable = ''0123456789abcdef''"

definition EncodeToString :: "string \<Rightarrow> string" where
  "EncodeToString src =
     concat (map (\<lambda>c. [hextable ! (of_char c div 16), hextable ! (of_char c mod 16)]) src)"

definition Hash_Hex :: "Hash \<Rightarrow> string" where
  "Hash_Hex h = ''0x'' @ EncodeToString h"

definition Hash_String :: "Hash \<Rightarrow> string" where
  "Hash_String h = Hash_Hex h"

text \<open>\<open>hex.DecodeString\<close> of Go's library: digits of either case, two per byte.\<close>

definition fromHexChar :: "char \<Rightarrow> nat option" where
  "fromHexChar c =
     (let n = of_char c in
      if 48 \<le> n \<and> n \<le> 57 then Some (n - 48)
      else if 97 \<le> n \<and> n \<le> 102 then Some (n - 97 + 10)
      else if 65 \<le> n \<and> n \<le> 70 then Some (n - 65 + 10)
      else None)"

fun DecodeString :: "string \<Rightarrow> string + string" where
  "DecodeString [] = Inr []"
| "DecodeString [c] = Inl ''encoding/hex: odd length hex string''"
| "DecodeString (a # b # rest) =
     (case (fromHexChar a, fromHexChar b) of
        (Some hi, Some lo) \<Rightarrow>
          (case DecodeString rest of
             Inl err \<Rightarrow> Inl err
           | Inr bs \<Rightarrow> Inr (char_of (hi * 16 + lo) # bs))
      | _ \<Rightarrow> Inl ''encoding/hex: invalid byte'')"

text \<open>
  Modelled from the spec: \<open>utils.HexToString\<close> is not among the sources. The spec has the
  job-identifier topic converted from its canonical hex encoding to the job's native id
  representation, an extraction that can fail: the \<open>0x\<close> prefix is dropped and the digits
  are decoded to the bytes of the string.
\<close>

definition RemoveHexPrefix :: "string \<Rightarrow> string" where
  "RemoveHexPrefix str = (if take 2 str = ''0x'' \<or> take 2 str = ''0X'' then drop 2 str else str)"

definition HexToString :: "string \<Rightarrow> string + string" where
  "HexToString hex = DecodeString (RemoveHexPrefix hex)"

section \<open>The RunLog validator\<close>

text \<open>Descriptive indices of a RunLog's topic array.\<close>

definition EventTopicSignature :: nat where "EventTopicSignature = 0"
definition EventTopicRequestID :: nat where "EventTopicRequestID = 1"
definition EventTopicJobID :: nat where "EventTopicJobID = 2"

text \<open>
  \<open>RunLogTopic\<close>, the signature of the \<open>Request(uint256,bytes32,string)\<close> event:
  the 32 bytes of 0x06f4bf36b4e011a5c499cef1113c2d166800ce4013f6c2509cab1a0e92b83fb2.
\<close>

definition RunLogTopic :: Hash where
  "RunLogTopic =
     [CHR 0x06, CHR 0xf4, CHR 0xbf, CHR 0x36, CHR 0xb4, CHR 0xe0, CHR 0x11, CHR 0xa5,
      CHR 0xc4, CHR 0x99, CHR 0xce, CHR 0xf1, CHR 0x11, CHR 0x3c, CHR 0x2d, CHR 0x16,
      CHR 0x68, CHR 0x00, CHR 0xce, CHR 0x40, CHR 0x13, CHR 0xf6, CHR 0xc2, CHR 0x50,
      CHR 0x9c, CHR 0xab, CHR 0x1a, CHR 0x0e, CHR 0x92, CHR 0xb8, CHR 0x3f, CHR 0xb2]"

text \<open>
  \<open>isRunLog\<close>: \<open>len(log.Topics) == 3 && log.Topics[0] == RunLogTopic\<close>; the right
  operand of \<open>&&\<close> is evaluated only when the left one holds.
\<close>

definition isRunLog :: "Log \<Rightarrow> fault + bool" where
  "isRunLog log =
     (if length (Topics log) = 3
      then (case index (Topics log) 0 of
              Inl f \<Rightarrow> Inl f
            | Inr t \<Rightarrow> Inr (t = RunLogTopic))
      else Inr False)"

definition jobIDFromLog :: "Log \<Rightarrow> fault + (string + string)" where
  "jobIDFromLog log =
     (case index (Topics log) EventTopicJobID of
        Inl f \<Rightarrow> Inl f
      | Inr t \<Rightarrow> Inr (HexToString (Hash_Hex t)))"

text \<open>
  \<open>ValidateRunLog\<close>. The key-value context the source passes to the logger
  (\<open>ForLogger\<close>) is left out of the logged effect; level and message are kept.
\<close>

definition ValidateRunLog :: "RpcLogEvent \<Rightarrow> world \<Rightarrow> bool outcome" where
  "ValidateRunLog le w =
     (let el = RpcLogEvent.Log le in
      case isRunLog el of
        Inl f \<Rightarrow> (Inl f, w)
      | Inr False \<Rightarrow>
          (Inr False,
           logger LDebug ''Skipping; Unable to retrieve runlog parameters from log'' w)
      | Inr True \<Rightarrow>
          (case jobIDFromLog el of
             Inl f \<Rightarrow> (Inl f, w)
           | Inr (Inl err) \<Rightarrow>
               (Inr False, logger LWarn ''Failed to retrieve Job ID from log'' w)
           | Inr (Inr jid) \<Rightarrow>
               if jid \<noteq> ID (RpcLogEvent.Job le)
               then (Inr False,
                     logger LWarn
                       (''Run Log didn't have matching job ID: '' @ jid @ '' != ''
                          @ ID (RpcLogEvent.Job le)) w)
               else (Inr True, w)))"

section \<open>The event decoder\<close>

text \<open>\<open>bytes.TrimRight\<close>: the trailing bytes that are in the cutset are removed.\<close>

definition TrimRight :: "string \<Rightarrow> string \<Rightarrow> string" where
  "TrimRight s cutset = rev (dropWhile (\<lambda>c. c \<in> set cutset) (rev s))"

text \<open>
  \<open>decodeABIToJSON\<close>: the slice expression \<open>data[varLocationSize+varLengthSize:]\<close>
  panics when the data is shorter than 64 bytes. The source returns
  \<open>js, json.Unmarshal(..., &js)\<close>; the parsed value is taken as the result.
\<close>

definition decodeABIToJSON :: "env \<Rightarrow> string \<Rightarrow> fault + (string + JSON)" where
  "decodeABIToJSON env data =
     (let varLocationSize = 32; varLengthSize = 32 in
      case slice_from data (varLocationSize + varLengthSize) of
        Inl f \<Rightarrow> Inl f
      | Inr hex \<Rightarrow> Inr (Unmarshal env (TrimRight hex [CHR 0x00])))"

text \<open>
  Modelled from the spec: \<open>models.JSON.Add\<close> is not among the sources. The spec has the
  decoder augment the parsed document with fields; \<open>Add\<close> sets one key of the document
  to a string value, and a document that is not an object has no keys to keep.
\<close>

fun Map_of :: "JSON \<Rightarrow> (string, JSON) fmap" where
  "Map_of (JObject m) = m"
| "Map_of _ = fmempty"

definition Add :: "string \<Rightarrow> string \<Rightarrow> JSON \<Rightarrow> string + JSON" where
  "Add key val j = Inr (JObject (fmupd key (JString val) (Map_of j)))"

definition keys :: "JSON \<Rightarrow> string set" where
  "keys j = fmdom' (Map_of j)"

definition lookup :: "JSON \<Rightarrow> string \<Rightarrow> JSON option" where
  "lookup j k = fmlookup (Map_of j) k"

text \<open>\<open>RunLogJSON\<close>, with the source's order: decode, add the address, read the topic.\<close>

definition RunLogJSON :: "env \<Rightarrow> RpcLogEvent \<Rightarrow> fault + (string + JSON)" where
  "RunLogJSON env le =
     (let el = RpcLogEvent.Log le in
      case decodeABIToJSON env (Log.Data el) of
        Inl f \<Rightarrow> Inl f
      | Inr (Inl err) \<Rightarrow> Inr (Inl err)
      | Inr (Inr js) \<Rightarrow>
          (case Add ''address'' (Address_String env (Log.Address el)) js of
             Inl err \<Rightarrow> Inr (Inl err)
           | Inr js1 \<Rightarrow>
               (case index (Topics el) EventTopicRequestID of
                  Inl f \<Rightarrow> Inl f
                | Inr t \<Rightarrow>
                    (case Add ''dataPrefix'' (Hash_String t) js1 of
                       Inl err \<Rightarrow> Inr (Inl err)
                     | Inr js2 \<Rightarrow> Inr (Add ''functionSelector'' ''76005c26'' js2)))))"

text \<open>
  \<open>EthLogJSON\<close>: the log is marshalled and the bytes are parsed again; as above, the
  parsed value is taken as the result.
\<close>

definition EthLogJSON :: "env \<Rightarrow> RpcLogEvent \<Rightarrow> string + JSON" where
  "EthLogJSON env le =
     (let el = RpcLogEvent.Log le in
      case Marshal env el of
        Inl err \<Rightarrow> Inl err
      | Inr b \<Rightarrow> Unmarshal env b)"

section \<open>The handlers and the dispatcher\<close>

text \<open>
  Modelled from the spec: \<open>utils.ZeroAddress\<close> is not among the sources; it is the
  address of 20 zero bytes, for which the presenter prints that all addresses are watched.
\<close>

definition ZeroAddress :: Address where
  "ZeroAddress = replicate 20 (CHR 0x00)"

definition LogListeningAddress :: "env \<Rightarrow> Address \<Rightarrow> string" where
  "LogListeningAddress env address =
     (if address = ZeroAddress then ''[all]'' else Address_String env address)"

definition runJob :: "env \<Rightarrow> RpcLogEvent \<Rightarrow> JSON \<Rightarrow> world \<Rightarrow> world" where
  "runJob env le data w =
     (let input = \<lparr>Data = data\<rparr>;
          w1 = emit (BeginRunCalled (RpcLogEvent.Job le) input) w
      in case BeginRun env (RpcLogEvent.Job le) input of
           Some err \<Rightarrow> logger LError err w1
         | None \<Rightarrow> w1)"

definition ReceiveRunLog :: "env \<Rightarrow> RpcLogEvent \<Rightarrow> world \<Rightarrow> unit outcome" where
  "ReceiveRunLog env le w =
     (case ValidateRunLog le w of
        (Inl f, w1) \<Rightarrow> (Inl f, w1)
      | (Inr False, w1) \<Rightarrow> (Inr (), w1)
      | (Inr True, w1) \<Rightarrow>
          (let friendlyAddress =
                 LogListeningAddress env (Initiator.Address (RpcLogEvent.Initiator le));
               msg = ''Received log for address '' @ friendlyAddress @ '' for job ''
                       @ ID (RpcLogEvent.Job le);
               w2 = logger LInfo msg w1
           in case RunLogJSON env le of
                Inl f \<Rightarrow> (Inl f, w2)
              | Inr (Inl err) \<Rightarrow> (Inr (), logger LError err w2)
              | Inr (Inr data) \<Rightarrow> (Inr (), runJob env le data w2)))"

definition ReceiveEthLog :: "env \<Rightarrow> RpcLogEvent \<Rightarrow> world \<Rightarrow> unit outcome" where
  "ReceiveEthLog env le w =
     (let friendlyAddress =
            LogListeningAddress env (Initiator.Address (RpcLogEvent.Initiator le));
          msg = ''Received log for address '' @ friendlyAddress @ '' for job ''
                  @ ID (RpcLogEvent.Job le);
          w1 = logger LInfo msg w
      in case EthLogJSON env le of
           Inl err \<Rightarrow> (Inr (), logger LError err w1)
         | Inr data \<Rightarrow> (Inr (), runJob env le data w1))"

text \<open>How many run-inputs a sequence of effects hands to the execution engine.\<close>

fun is_dispatch :: "effect \<Rightarrow> bool" where
  "is_dispatch (BeginRunCalled j r) = True"
| "is_dispatch _ = False"

definition dispatches :: "effect list \<Rightarrow> nat" where
  "dispatches es = length (filter is_dispatch es)"

section \<open>Log subscriptions\<close>

text \<open>
  Modelled from the spec: \<open>utils.ToFilterQueryFor\<close> is not among the sources. The
  stream is scoped to the watched address and starts at the current head.
\<close>

definition ToFilterQueryFor :: "int \<Rightarrow> Address list \<Rightarrow> FilterQuery" where
  "ToFilterQueryFor fromBlock addresses = \<lparr>FromBlock = fromBlock, Addresses = addresses\<rparr>"

definition make_chan :: "world \<Rightarrow> nat \<times> world" where
  "make_chan w = (chans w, w\<lparr>chans := Suc (chans w)\<rparr>)"

text \<open>\<open>close\<close> of Go: a nil channel and a channel that is closed already both panic.\<close>

definition close_chan :: "nat option \<Rightarrow> world \<Rightarrow> unit outcome" where
  "close_chan ch w =
     (case ch of
        None \<Rightarrow> (Inl CloseOfNilChannel, w)
      | Some c \<Rightarrow>
          if c \<in> closed w then (Inl CloseOfClosedChannel, w)
          else (Inr (), emit (Closed c) (w\<lparr>closed := insert c (closed w)\<rparr>)))"

text \<open>
  \<open>NewRpcLogSubscription\<close> returns the subscription and the error, as the source does:
  on failure the subscription comes back with its channels made and no upstream
  subscription. The two listeners are started as goroutines, recorded as effects.
\<close>

definition NewRpcLogSubscription ::
  "env \<Rightarrow> Initiator \<Rightarrow> Job \<Rightarrow> (env \<Rightarrow> RpcLogEvent \<Rightarrow> world \<Rightarrow> unit outcome)
     \<Rightarrow> world \<Rightarrow> (RpcLogSubscription \<times> string option) \<times> world" where
  "NewRpcLogSubscription env initr job callback w =
     (let (ec, w1) = make_chan w;
          (lc, w2) = make_chan w1;
          sub = \<lparr>RpcLogSubscription.Job = job, RpcLogSubscription.Initiator = initr,
                 ReceiveLog = callback, logNotifications = Some lc, errors = Some ec,
                 rpcSubscription = None\<rparr>;
          fq = ToFilterQueryFor (Head env) [Initiator.Address initr];
          w3 = emit (SubscribeCalled lc fq) w2
      in case SubscribeToLogs env lc fq of
           Inl err \<Rightarrow> ((sub, Some err), w3)
         | Inr rpc \<Rightarrow>
             ((sub\<lparr>rpcSubscription := Some rpc\<rparr>, None),
              emit (Spawned ''listenToLogs'' lc)
                (emit (Spawned ''listenToSubscriptionErrors'' ec) w3)))"

definition logListening :: "env \<Rightarrow> Initiator \<Rightarrow> world \<Rightarrow> world" where
  "logListening env initr w =
     logger LInfo
       (''Listening for '' @ Type initr @ '' from address ''
          @ LogListeningAddress env (Initiator.Address initr) @ '' for job '' @ JobID initr) w"

definition StartRunLogSubscription ::
  "env \<Rightarrow> Initiator \<Rightarrow> Job \<Rightarrow> world \<Rightarrow> (RpcLogSubscription \<times> string option) \<times> world" where
  "StartRunLogSubscription env initr job w =
     NewRpcLogSubscription env initr job ReceiveRunLog (logListening env initr w)"

definition StartEthLogSubscription ::
  "env \<Rightarrow> Initiator \<Rightarrow> Job \<Rightarrow> world \<Rightarrow> (RpcLogSubscription \<times> string option) \<times> world" where
  "StartEthLogSubscription env initr job w =
     NewRpcLogSubscription env initr job ReceiveEthLog (logListening env initr w)"

text \<open>
  \<open>listenToLogs\<close>: the events that arrive on the channel before it is closed are a list;
  each is handed to the callback in turn, and a panic ends the listener.
\<close>

fun listenToLogs :: "env \<Rightarrow> RpcLogSubscription \<Rightarrow> Log list \<Rightarrow> world \<Rightarrow> unit outcome" where
  "listenToLogs env sub [] w = (Inr (), w)"
| "listenToLogs env sub (el # rest) w =
     (case ReceiveLog sub env
             \<lparr>RpcLogEvent.Log = el, RpcLogEvent.Job = RpcLogSubscription.Job sub,
              RpcLogEvent.Initiator = RpcLogSubscription.Initiator sub\<rparr> w of
        (Inl f, w1) \<Rightarrow> (Inl f, w1)
      | (Inr u, w1) \<Rightarrow> listenToLogs env sub rest w1)"

text \<open>
  \<open>RpcLogSubscription.Unsubscribe\<close>: the upstream subscription is left alone when it is
  nil or when its \<open>Err()\<close> is nil; then the two channels are closed.
\<close>

definition RpcLogSubscription_Unsubscribe :: "RpcLogSubscription \<Rightarrow> world \<Rightarrow> unit outcome" where
  "RpcLogSubscription_Unsubscribe sub w =
     (let w1 = (case rpcSubscription sub of
                  None \<Rightarrow> w
                | Some rpc \<Rightarrow> if Err rpc \<noteq> None then emit (RpcUnsubscribed (ident rpc)) w else w)
      in case close_chan (logNotifications sub) w1 of
           (Inl f, w2) \<Rightarrow> (Inl f, w2)
         | (Inr u, w2) \<Rightarrow> close_chan (errors sub) w2)"

section \<open>Job subscriptions\<close>

text \<open>
  Modelled from the spec: \<open>models.Job.InitiatorsFor\<close> and the initiator type constants
  are not among the sources. The job's initiators are partitioned by type.
\<close>

definition InitiatorEthLog :: string where "InitiatorEthLog = ''ethlog''"
definition InitiatorRunLog :: string where "InitiatorRunLog = ''runlog''"

definition InitiatorsFor :: "Job \<Rightarrow> string \<Rightarrow> Initiator list" where
  "InitiatorsFor job t = filter (\<lambda>initr. Type initr = t) (Initiators job)"

text \<open>\<open>multierr.Append\<close>, and \<open>errors.New\<close> for the right operand.\<close>

definition multierr_Append :: "string list \<Rightarrow> string option \<Rightarrow> string list" where
  "multierr_Append left right = (case right of None \<Rightarrow> left | Some err \<Rightarrow> left @ [err])"

text \<open>
  One loop of \<open>StartJobSubscription\<close>: the two loops of the source differ only in the
  function that starts a subscription.
\<close>

fun startEach ::
  "(Initiator \<Rightarrow> world \<Rightarrow> (RpcLogSubscription \<times> string option) \<times> world) \<Rightarrow> Initiator list
     \<Rightarrow> string list \<Rightarrow> RpcLogSubscription list \<Rightarrow> world
     \<Rightarrow> (string list \<times> RpcLogSubscription list) \<times> world" where
  "startEach start [] merr initSubs w = ((merr, initSubs), w)"
| "startEach start (initr # rest) merr initSubs w =
     (case start initr w of
        ((sub, err), w1) \<Rightarrow>
          startEach start rest (multierr_Append merr err)
            (if err = None then initSubs @ [sub] else initSubs) w1)"

definition zero_Job :: Job where
  "zero_Job = \<lparr>ID = [], Initiators = []\<rparr>"

definition zero_JobSubscription :: JobSubscription where
  "zero_JobSubscription = \<lparr>Job = zero_Job, unsubscribers = []\<rparr>"

definition StartJobSubscription ::
  "env \<Rightarrow> Job \<Rightarrow> world \<Rightarrow> (JobSubscription \<times> string list) \<times> world" where
  "StartJobSubscription env job w =
     (case startEach (\<lambda>initr. StartEthLogSubscription env initr job)
             (InitiatorsFor job InitiatorEthLog) [] [] w of
        ((merr1, initSubs1), w1) \<Rightarrow>
          (case startEach (\<lambda>initr. StartRunLogSubscription env initr job)
                  (InitiatorsFor job InitiatorRunLog) merr1 initSubs1 w1 of
             ((merr, initSubs), w2) \<Rightarrow>
               if length initSubs = 0
               then ((zero_JobSubscription,
                      multierr_Append merr (Some ''Job must have a valid log initiator'')), w2)
               else ((\<lparr>Job = job, unsubscribers = initSubs\<rparr>, merr), w2)))"

text \<open>\<open>JobSubscription.Unsubscribe\<close>: a panic in one child ends the loop.\<close>

fun unsubscribeEach :: "RpcLogSubscription list \<Rightarrow> world \<Rightarrow> unit outcome" where
  "unsubscribeEach [] w = (Inr (), w)"
| "unsubscribeEach (sub # rest) w =
     (case RpcLogSubscription_Unsubscribe sub w of
        (Inl f, w1) \<Rightarrow> (Inl f, w1)
      | (Inr u, w1) \<Rightarrow> unsubscribeEach rest w1)"

definition JobSubscription_Unsubscribe :: "JobSubscription \<Rightarrow> world \<Rightarrow> unit outcome" where
  "JobSubscription_Unsubscribe js w = unsubscribeEach (unsubscribers js) w"

section \<open>The fixed-offset string format\<close>

text \<open>
  The format in which the contract's \<open>Request\<close> event carries its string argument,
  as the spec words it: a 32-byte head word (the offset 32), a 32-byte length word, then
  the bytes of the string, zero-padded to a 32-byte boundary. Words are big-endian.
\<close>

fun be_bytes :: "nat \<Rightarrow> nat \<Rightarrow> string" where
  "be_bytes 0 n = []"
| "be_bytes (Suc k) n = be_bytes k (n div 256) @ [char_of n]"

definition uint256_bytes :: "nat \<Rightarrow> string" where
  "uint256_bytes n = be_bytes 32 n"

definition abi_encode_string :: "string \<Rightarrow> string" where
  "abi_encode_string s =
     uint256_bytes 32 @ uint256_bytes (length s) @ s
       @ replicate ((32 - length s mod 32) mod 32) (CHR 0x00)"

section \<open>The attempts of an open and the streams of a handle\<close>

text \<open>
  What \<open>StartJobSubscription\<close> is to do, in the spec's words: one attempt for each
  EthLog initiator and then one for each RunLog initiator, each on channels of its own.
  The attempt that starts when \<open>c\<close> channels exist makes the error channel \<open>c\<close> and
  the event channel \<open>Suc c\<close>, and asks the transaction manager for the logs of the
  initiator's address on the event channel. A failed attempt gives its error, a successful
  one its subscription.
\<close>

type_synonym callback = "env \<Rightarrow> RpcLogEvent \<Rightarrow> world \<Rightarrow> unit outcome"

type_synonym attempt = "nat \<times> callback \<times> Initiator \<times> (string + ClientSubscription)"

definition logInitiators :: "Job \<Rightarrow> (callback \<times> Initiator) list" where
  "logInitiators job =
     map (Pair ReceiveEthLog) (InitiatorsFor job InitiatorEthLog)
       @ map (Pair ReceiveRunLog) (InitiatorsFor job InitiatorRunLog)"

fun attempts :: "env \<Rightarrow> nat \<Rightarrow> (callback \<times> Initiator) list \<Rightarrow> attempt list" where
  "attempts env c [] = []"
| "attempts env c ((cb, initr) # rest) =
     (c, cb, initr,
      SubscribeToLogs env (Suc c) (ToFilterQueryFor (Head env) [Initiator.Address initr]))
       # attempts env (c + 2) rest"

fun failed :: "attempt \<Rightarrow> bool" where
  "failed (c, cb, initr, r) = isl r"

fun failure_of :: "attempt \<Rightarrow> string list" where
  "failure_of (c, cb, initr, Inl err) = [err]"
| "failure_of (c, cb, initr, Inr rpc) = []"

fun success_of :: "Job \<Rightarrow> attempt \<Rightarrow> RpcLogSubscription list" where
  "success_of job (c, cb, initr, Inl err) = []"
| "success_of job (c, cb, initr, Inr rpc) =
     [\<lparr>RpcLogSubscription.Job = job, RpcLogSubscription.Initiator = initr, ReceiveLog = cb,
       logNotifications = Some (Suc c), errors = Some c, rpcSubscription = Some rpc\<rparr>]"

fun subscribe_calls :: "effect list \<Rightarrow> (nat \<times> FilterQuery) list" where
  "subscribe_calls [] = []"
| "subscribe_calls (SubscribeCalled c fq # es) = (c, fq) # subscribe_calls es"
| "subscribe_calls (e # es) = subscribe_calls es"

fun call_of :: "env \<Rightarrow> attempt \<Rightarrow> nat \<times> FilterQuery" where
  "call_of env (c, cb, initr, r) = (Suc c, ToFilterQueryFor (Head env) [Initiator.Address initr])"

text \<open>
  What closing a subscription does to the world: the upstream unsubscribe, when the source
  makes one, and the streams the subscription owns, event stream first.
\<close>

definition upstream_unsubscribe :: "RpcLogSubscription \<Rightarrow> effect list" where
  "upstream_unsubscribe sub =
     (case rpcSubscription sub of
        None \<Rightarrow> []
      | Some rpc \<Rightarrow> if Err rpc \<noteq> None then [RpcUnsubscribed (ident rpc)] else [])"

definition streams :: "RpcLogSubscription \<Rightarrow> nat list" where
  "streams sub =
     (case logNotifications sub of None \<Rightarrow> [] | Some c \<Rightarrow> [c])
       @ (case errors sub of None \<Rightarrow> [] | Some c \<Rightarrow> [c])"

definition intact :: "RpcLogSubscription \<Rightarrow> bool" where
  "intact sub \<longleftrightarrow> logNotifications sub \<noteq> None \<and> errors sub \<noteq> None"

definition close_effects :: "RpcLogSubscription \<Rightarrow> effect list" where
  "close_effects sub = upstream_unsubscribe sub @ map Closed (streams sub)"

section \<open>Sample values\<close>

text \<open>
  A job with one RunLog and one EthLog initiator, events for it, and stand-ins for the
  collaborators: a parser that knows one document, a transaction manager that refuses
  subscriptions to all addresses, and an execution engine that rejects every run. The
  second transaction manager hands out zero-valued upstream subscriptions. The second job
  has the EthLog initiator only.
\<close>

definition sample_jid :: string where
  "sample_jid = ''4c7b7ffb66b344fbaa64995af81e355a''"

definition other_jid :: string where
  "other_jid = ''0f1e2d3c4b5a69788796a5b4c3d2e1f0''"

definition sample_address :: Address where
  "sample_address = replicate 19 (CHR 0x00) @ [CHR 0x01]"

definition sample_request :: Hash where
  "sample_request = replicate 31 (CHR 0x00) @ [CHR 0x01]"

definition sample_bytes :: string where
  \<open>sample_bytes = ''{"value":"100"}''\<close>

definition sample_doc :: JSON where
  "sample_doc = JObject (fmupd ''value'' (JString ''100'') fmempty)"

definition sample_env :: env where
  "sample_env =
     \<lparr>Unmarshal = (\<lambda>b. if b = sample_bytes then Inr sample_doc else Inl ''invalid JSON''),
      Marshal = (\<lambda>el. Inr sample_bytes),
      Address_String = Hash_Hex,
      Head = 0,
      SubscribeToLogs =
        (\<lambda>c fq. if Addresses fq = [ZeroAddress] then Inl ''connection refused''
                 else Inr \<lparr>ident = c, Err = Some c\<rparr>),
      BeginRun = (\<lambda>job input. Some ''no such job'')\<rparr>"

definition w0 :: world where
  "w0 = \<lparr>chans = 0, closed = {}, trace = []\<rparr>"

definition runlog_initiator :: Initiator where
  "runlog_initiator = \<lparr>Type = InitiatorRunLog, Address = sample_address, JobID = sample_jid\<rparr>"

definition ethlog_initiator :: Initiator where
  "ethlog_initiator = \<lparr>Type = InitiatorEthLog, Address = ZeroAddress, JobID = sample_jid\<rparr>"

definition sample_job :: Job where
  "sample_job = \<lparr>ID = sample_jid, Initiators = [runlog_initiator, ethlog_initiator]\<rparr>"

definition refused_job :: Job where
  "refused_job = \<lparr>ID = sample_jid, Initiators = [ethlog_initiator]\<rparr>"

definition event_with :: "Hash list \<Rightarrow> string \<Rightarrow> RpcLogEvent" where
  "event_with topics data =
     \<lparr>RpcLogEvent.Log = \<lparr>Log.Address = sample_address, Topics = topics, Data = data\<rparr>,
      RpcLogEvent.Job = sample_job, RpcLogEvent.Initiator = runlog_initiator\<rparr>"

definition sample_event :: RpcLogEvent where
  "sample_event =
     event_with [RunLogTopic, sample_request, sample_jid] (abi_encode_string sample_bytes)"

definition other_event :: RpcLogEvent where
  "other_event =
     event_with [RunLogTopic, sample_request, other_jid] (abi_encode_string sample_bytes)"

definition short_event :: RpcLogEvent where
  "short_event = event_with [RunLogTopic, sample_request, sample_jid] []"

definition sample_sub :: RpcLogSubscription where
  "sample_sub =
     \<lparr>RpcLogSubscription.Job = sample_job, RpcLogSubscription.Initiator = runlog_initiator,
      ReceiveLog = ReceiveRunLog, logNotifications = Some 3, errors = Some 2,
      rpcSubscription = Some \<lparr>ident = 3, Err = Some 3\<rparr>\<rparr>"

definition quiet_sub :: RpcLogSubscription where
  "quiet_sub = sample_sub\<lparr>rpcSubscription := Some \<lparr>ident = 3, Err = None\<rparr>\<rparr>"

definition first_sub :: RpcLogSubscription where
  "first_sub =
     \<lparr>RpcLogSubscription.Job = sample_job, RpcLogSubscription.Initiator = ethlog_initiator,
      ReceiveLog = ReceiveEthLog, logNotifications = Some 1, errors = Some 0,
      rpcSubscription = Some \<lparr>ident = 1, Err = Some 1\<rparr>\<rparr>"

definition quiet_env :: env where
  "quiet_env = sample_env\<lparr>SubscribeToLogs := (\<lambda>c fq. Inr \<lparr>ident = c, Err = None\<rparr>)\<rparr>"

definition w2 :: world where
  "w2 = \<lparr>chans = 2, closed = {}, trace = []\<rparr>"

definition w4 :: world where
  "w4 = \<lparr>chans = 4, closed = {}, trace = []\<rparr>"

definition sample_js :: JobSubscription where
  "sample_js = \<lparr>Job = sample_job, unsubscribers = [first_sub, sample_sub]\<rparr>"

section \<open>Properties of the validator\<close>

subsection \<open>Hex strings decode to the bytes they encode\<close>

lemma fromHexChar_hextable: "n < 16 \<Longrightarrow> fromHexChar (hextable ! n) = Some n"
proof -
  assume n: "n < 16"
  have "list_all (\<lambda>k. fromHexChar (hextable ! k) = Some k) [0..<16]"
    by code_simp
  with n show ?thesis
    by (simp add: list_all_iff)
qed

lemma DecodeString_EncodeToString: "DecodeString (EncodeToString bs) = Inr bs"
proof (induction bs)
  case Nil
  then show ?case by (simp add: EncodeToString_def)
next
  case (Cons c bs)
  have lt: "of_char c div 16 < (16::nat)" "of_char c mod 16 < (16::nat)"
    using of_char_mod_256[of c, where ?'a=nat] by (auto simp: less_mult_imp_div_less)
  have "char_of ((of_char c div 16) * 16 + of_char c mod 16 :: nat) = c" by simp
  with Cons lt show ?case by (simp add: EncodeToString_def fromHexChar_hextable)
qed

lemma HexToString_Hash_Hex: "HexToString (Hash_Hex h) = Inr h"
  by (simp add: HexToString_def Hash_Hex_def RemoveHexPrefix_def DecodeString_EncodeToString)

subsection \<open>What the validator returns\<close>

lemma isRunLog_eq:
  "isRunLog log = Inr (length (Topics log) = 3 \<and> Topics log ! 0 = RunLogTopic)"
  by (simp add: isRunLog_def index_def)

lemma jobIDFromLog_eq:
  "length (Topics log) = 3 \<Longrightarrow> jobIDFromLog log = Inr (HexToString (Hash_Hex (Topics log ! 2)))"
  by (simp add: jobIDFromLog_def index_def EventTopicJobID_def)

lemma ValidateRunLog_eq:
  "ValidateRunLog le w =
     (if \<not> (length (Topics (RpcLogEvent.Log le)) = 3 \<and> Topics (RpcLogEvent.Log le) ! 0 = RunLogTopic)
      then (Inr False, logger LDebug ''Skipping; Unable to retrieve runlog parameters from log'' w)
      else case HexToString (Hash_Hex (Topics (RpcLogEvent.Log le) ! 2)) of
             Inl err \<Rightarrow> (Inr False, logger LWarn ''Failed to retrieve Job ID from log'' w)
           | Inr jid \<Rightarrow>
               if jid \<noteq> ID (RpcLogEvent.Job le)
               then (Inr False,
                     logger LWarn
                       (''Run Log didn't have matching job ID: '' @ jid @ '' != ''
                          @ ID (RpcLogEvent.Job le)) w)
               else (Inr True, w))"
  by (cases "length (Topics (RpcLogEvent.Log le)) = 3")
     (simp_all add: ValidateRunLog_def isRunLog_eq jobIDFromLog_eq Let_def split: sum.split)

lemma ValidateRunLog_fst:
  "fst (ValidateRunLog le w) =
     Inr (length (Topics (RpcLogEvent.Log le)) = 3 \<and>
          Topics (RpcLogEvent.Log le) ! 0 = RunLogTopic \<and>
          HexToString (Hash_Hex (Topics (RpcLogEvent.Log le) ! 2)) = Inr (ID (RpcLogEvent.Job le)))"
  by (auto simp add: ValidateRunLog_eq split: sum.split)

lemma ValidateRunLog_cases:
  obtains (accept) "ValidateRunLog le w = (Inr True, w)"
  | (reject) lvl msg where "lvl = LDebug \<or> lvl = LWarn"
      and "ValidateRunLog le w = (Inr False, logger lvl msg w)"
proof (cases "length (Topics (RpcLogEvent.Log le)) = 3 \<and> Topics (RpcLogEvent.Log le) ! 0 = RunLogTopic")
  case False
  then have "ValidateRunLog le w =
      (Inr False, logger LDebug ''Skipping; Unable to retrieve runlog parameters from log'' w)"
    by (simp add: ValidateRunLog_eq)
  then show ?thesis using reject by blast
next
  case True
  show ?thesis
  proof (cases "HexToString (Hash_Hex (Topics (RpcLogEvent.Log le) ! 2))")
    case (Inl err)
    with True have "ValidateRunLog le w =
        (Inr False, logger LWarn ''Failed to retrieve Job ID from log'' w)"
      by (simp add: ValidateRunLog_eq)
    then show ?thesis using reject by blast
  next
    case (Inr jid)
    show ?thesis
    proof (cases "jid = ID (RpcLogEvent.Job le)")
      case True
      with Inr \<open>length _ = 3 \<and> _\<close> have "ValidateRunLog le w = (Inr True, w)"
        by (simp add: ValidateRunLog_eq)
      then show ?thesis using accept by blast
    next
      case False
      with Inr \<open>length _ = 3 \<and> _\<close> have "ValidateRunLog le w =
          (Inr False,
           logger LWarn (''Run Log didn't have matching job ID: '' @ jid @ '' != ''
                          @ ID (RpcLogEvent.Job le)) w)"
        by (simp add: ValidateRunLog_eq)
      then show ?thesis using reject by blast
    qed
  qed
qed

lemma sample_bytes_no_zero: "CHR 0x00 \<notin> set sample_bytes"
  by (simp add: sample_bytes_def)

lemma sample_event_valid:
  "length (Topics (RpcLogEvent.Log sample_event)) = 3 \<and>
   Topics (RpcLogEvent.Log sample_event) ! 0 = RunLogTopic \<and>
   HexToString (Hash_Hex (Topics (RpcLogEvent.Log sample_event) ! 2))
     = Inr (ID (RpcLogEvent.Job sample_event))"
  by (simp add: sample_event_def event_with_def sample_job_def HexToString_Hash_Hex)

lemma other_event_invalid:
  "HexToString (Hash_Hex (Topics (RpcLogEvent.Log other_event) ! 2))
     \<noteq> Inr (ID (RpcLogEvent.Job other_event))"
  by (simp add: other_event_def event_with_def sample_job_def HexToString_Hash_Hex
      sample_jid_def other_jid_def)

text \<open>
  Claim C1: \<open>ValidateRunLog\<close> accepts an event if and only if the event has exactly
  three topics, the first topic is \<open>RunLogTopic\<close>, and the job id decoded from the hex
  string of the third topic is the id of the watching job. Every other event is rejected,
  and \<open>ReceiveRunLog\<close> then returns after the validator's one log line, at debug or
  warning level: nothing is decoded and nothing is dispatched.
\<close>

theorem ValidateRunLog_accepts_iff:
  "(fst (ValidateRunLog le w) = Inr True \<longleftrightarrow>
      length (Topics (RpcLogEvent.Log le)) = 3 \<and>
      Topics (RpcLogEvent.Log le) ! 0 = RunLogTopic \<and>
      HexToString (Hash_Hex (Topics (RpcLogEvent.Log le) ! 2)) = Inr (ID (RpcLogEvent.Job le)))
   \<and> (fst (ValidateRunLog le w) \<noteq> Inr True \<longrightarrow>
        fst (ValidateRunLog le w) = Inr False \<and>
        (\<exists>lvl msg. (lvl = LDebug \<or> lvl = LWarn) \<and>
           ReceiveRunLog env le w = (Inr (), logger lvl msg w) \<and>
           dispatches (trace (logger lvl msg w)) = dispatches (trace w)))"
proof (intro conjI impI)
  show "fst (ValidateRunLog le w) = Inr True \<longleftrightarrow>
      length (Topics (RpcLogEvent.Log le)) = 3 \<and>
      Topics (RpcLogEvent.Log le) ! 0 = RunLogTopic \<and>
      HexToString (Hash_Hex (Topics (RpcLogEvent.Log le) ! 2)) = Inr (ID (RpcLogEvent.Job le))"
    by (simp add: ValidateRunLog_fst)
next
  assume "fst (ValidateRunLog le w) \<noteq> Inr True"
  then show "fst (ValidateRunLog le w) = Inr False"
    by (simp add: ValidateRunLog_fst)
next
  assume rej: "fst (ValidateRunLog le w) \<noteq> Inr True"
  have disp: "dispatches (trace (logger lvl msg w)) = dispatches (trace w)" for lvl msg
    by (simp add: logger_def emit_def dispatches_def)
  show "\<exists>lvl msg. (lvl = LDebug \<or> lvl = LWarn) \<and>
           ReceiveRunLog env le w = (Inr (), logger lvl msg w) \<and>
           dispatches (trace (logger lvl msg w)) = dispatches (trace w)"
  proof (cases le w rule: ValidateRunLog_cases)
    case accept
    with rej show ?thesis by simp
  next
    case (reject lvl msg)
    then have "ReceiveRunLog env le w = (Inr (), logger lvl msg w)"
      by (simp add: ReceiveRunLog_def)
    with reject(1) disp show ?thesis by blast
  qed
qed

text \<open>
  The sample event is accepted; the event that names another job is rejected and
  dropped.
\<close>

theorem ValidateRunLog_accepts_iff_witness:
  "fst (ValidateRunLog sample_event w0) = Inr True \<and>
   fst (ValidateRunLog other_event w0) = Inr False \<and>
   (\<exists>lvl msg. ReceiveRunLog sample_env other_event w0 = (Inr (), logger lvl msg w0))"
proof -
  from ValidateRunLog_accepts_iff[of sample_event w0 sample_env] sample_event_valid
  have a: "fst (ValidateRunLog sample_event w0) = Inr True"
    by blast
  from ValidateRunLog_accepts_iff[of other_event w0 sample_env] other_event_invalid
  have b: "fst (ValidateRunLog other_event w0) = Inr False \<and>
     (\<exists>lvl msg. ReceiveRunLog sample_env other_event w0 = (Inr (), logger lvl msg w0))"
    by blast
  from a b show ?thesis by blast
qed

subsection \<open>Topic indices\<close>

lemma RunLogJSON_no_index_fault:
  "1 < length (Topics (RpcLogEvent.Log le)) \<Longrightarrow> RunLogJSON env le \<noteq> Inl IndexOutOfRange"
  by (simp add: RunLogJSON_def decodeABIToJSON_def slice_from_def index_def Add_def
      EventTopicRequestID_def Let_def split: sum.split)

text \<open>
  Claim C10: every topic access on the RunLog path is in bounds. Neither the validator
  nor \<open>ReceiveRunLog\<close> ever ends in an index fault, and for an accepted event the
  three indices the path reads (signature, request id, job id) all lie inside the topic
  array.
\<close>

theorem ReceiveRunLog_topics_in_bounds:
  "fst (ValidateRunLog le w) \<noteq> Inl IndexOutOfRange \<and>
   fst (ReceiveRunLog env le w) \<noteq> Inl IndexOutOfRange \<and>
   (fst (ValidateRunLog le w) = Inr True \<longrightarrow>
      index (Topics (RpcLogEvent.Log le)) EventTopicSignature = Inr (Topics (RpcLogEvent.Log le) ! 0) \<and>
      index (Topics (RpcLogEvent.Log le)) EventTopicRequestID = Inr (Topics (RpcLogEvent.Log le) ! 1) \<and>
      index (Topics (RpcLogEvent.Log le)) EventTopicJobID = Inr (Topics (RpcLogEvent.Log le) ! 2))"
proof (intro conjI impI)
  show "fst (ValidateRunLog le w) \<noteq> Inl IndexOutOfRange"
    by (simp add: ValidateRunLog_fst)
  show "fst (ReceiveRunLog env le w) \<noteq> Inl IndexOutOfRange"
  proof (cases le w rule: ValidateRunLog_cases)
    case accept
    then have "fst (ValidateRunLog le w) = Inr True" by simp
    then have len: "1 < length (Topics (RpcLogEvent.Log le))"
      by (simp add: ValidateRunLog_fst)
    from accept show ?thesis
      using RunLogJSON_no_index_fault[OF len, of env]
      by (auto simp add: ReceiveRunLog_def Let_def split: sum.split)
  next
    case (reject lvl msg)
    then show ?thesis by (simp add: ReceiveRunLog_def)
  qed
next
  assume "fst (ValidateRunLog le w) = Inr True"
  then have len: "length (Topics (RpcLogEvent.Log le)) = 3"
    by (simp add: ValidateRunLog_fst)
  from len show "index (Topics (RpcLogEvent.Log le)) EventTopicSignature = Inr (Topics (RpcLogEvent.Log le) ! 0)"
    by (simp add: index_def EventTopicSignature_def)
  from len show "index (Topics (RpcLogEvent.Log le)) EventTopicRequestID = Inr (Topics (RpcLogEvent.Log le) ! 1)"
    by (simp add: index_def EventTopicRequestID_def)
  from len show "index (Topics (RpcLogEvent.Log le)) EventTopicJobID = Inr (Topics (RpcLogEvent.Log le) ! 2)"
    by (simp add: index_def EventTopicJobID_def)
qed

text \<open>
  The three topics of the sample event are read where they stand.
\<close>

theorem ReceiveRunLog_topics_in_bounds_witness:
  "index (Topics (RpcLogEvent.Log sample_event)) EventTopicRequestID = Inr sample_request \<and>
   index (Topics (RpcLogEvent.Log sample_event)) EventTopicJobID = Inr sample_jid"
proof -
  have "fst (ValidateRunLog sample_event w0) = Inr True"
    using sample_event_valid by (simp add: ValidateRunLog_fst)
  with ReceiveRunLog_topics_in_bounds[of sample_event w0 sample_env]
  show ?thesis
    by (simp add: sample_event_def event_with_def)
qed

section \<open>Properties of the decoder\<close>

lemma decodeABIToJSON_eq:
  "decodeABIToJSON env data =
     (if 64 \<le> length data then Inr (Unmarshal env (TrimRight (drop 64 data) [CHR 0x00]))
      else Inl SliceBoundsOutOfRange)"
  by (simp add: decodeABIToJSON_def slice_from_def)

lemma RunLogJSON_success_iff:
  "(\<exists>out. RunLogJSON env le = Inr (Inr out)) \<longleftrightarrow>
     64 \<le> length (Log.Data (RpcLogEvent.Log le)) \<and> 1 < length (Topics (RpcLogEvent.Log le)) \<and>
     (\<exists>doc. Unmarshal env (TrimRight (drop 64 (Log.Data (RpcLogEvent.Log le))) [CHR 0x00]) = Inr doc)"
  by (auto simp: RunLogJSON_def decodeABIToJSON_eq index_def Add_def EventTopicRequestID_def Let_def
      split: sum.splits if_splits)

lemma RunLogJSON_output:
  assumes "RunLogJSON env le = Inr (Inr out)"
  shows "\<exists>doc. Unmarshal env (TrimRight (drop 64 (Log.Data (RpcLogEvent.Log le))) [CHR 0x00]) = Inr doc \<and>
     out = JObject (fmupd ''functionSelector'' (JString ''76005c26'')
             (fmupd ''dataPrefix'' (JString (Hash_String (Topics (RpcLogEvent.Log le) ! 1)))
               (fmupd ''address'' (JString (Address_String env (Log.Address (RpcLogEvent.Log le))))
                 (Map_of doc))))"
  using assms
  by (auto simp: RunLogJSON_def decodeABIToJSON_eq index_def Add_def EventTopicRequestID_def Let_def
      split: sum.splits if_splits)

text \<open>
  Claim C2: \<open>RunLogJSON\<close> produces a payload exactly when the data has the 64 leading
  bytes to strip, the topic at index 1 exists, and the rest of the data, with its trailing
  zero bytes trimmed, parses as JSON. The payload then has the keys \<open>address\<close>,
  \<open>dataPrefix\<close> and \<open>functionSelector\<close> and every key of the parsed document:
  \<open>address\<close> is the string of the emitting address, \<open>dataPrefix\<close> the hex string
  of the topic at index 1, \<open>functionSelector\<close> the constant 76005c26, and every other
  key has the value the document gives it.
\<close>

theorem RunLogJSON_decodes_and_augments:
  "((\<exists>out. RunLogJSON env le = Inr (Inr out)) \<longleftrightarrow>
      64 \<le> length (Log.Data (RpcLogEvent.Log le)) \<and> 1 < length (Topics (RpcLogEvent.Log le)) \<and>
      (\<exists>doc. Unmarshal env (TrimRight (drop 64 (Log.Data (RpcLogEvent.Log le))) [CHR 0x00]) = Inr doc))
   \<and> (RunLogJSON env le = Inr (Inr out) \<longrightarrow>
        (\<exists>doc. Unmarshal env (TrimRight (drop 64 (Log.Data (RpcLogEvent.Log le))) [CHR 0x00]) = Inr doc \<and>
           keys out = {''address'', ''dataPrefix'', ''functionSelector''} \<union> keys doc \<and>
           lookup out ''address'' = Some (JString (Address_String env (Log.Address (RpcLogEvent.Log le)))) \<and>
           lookup out ''dataPrefix'' = Some (JString (Hash_String (Topics (RpcLogEvent.Log le) ! 1))) \<and>
           lookup out ''functionSelector'' = Some (JString ''76005c26'') \<and>
           (\<forall>k. k \<notin> {''address'', ''dataPrefix'', ''functionSelector''} \<longrightarrow> lookup out k = lookup doc k)))"
proof (intro conjI impI)
  show "(\<exists>out. RunLogJSON env le = Inr (Inr out)) \<longleftrightarrow>
      64 \<le> length (Log.Data (RpcLogEvent.Log le)) \<and> 1 < length (Topics (RpcLogEvent.Log le)) \<and>
      (\<exists>doc. Unmarshal env (TrimRight (drop 64 (Log.Data (RpcLogEvent.Log le))) [CHR 0x00]) = Inr doc)"
    by (rule RunLogJSON_success_iff)
next
  assume "RunLogJSON env le = Inr (Inr out)"
  from RunLogJSON_output[OF this] obtain doc where
    doc: "Unmarshal env (TrimRight (drop 64 (Log.Data (RpcLogEvent.Log le))) [CHR 0x00]) = Inr doc"
    and out: "out = JObject (fmupd ''functionSelector'' (JString ''76005c26'')
             (fmupd ''dataPrefix'' (JString (Hash_String (Topics (RpcLogEvent.Log le) ! 1)))
               (fmupd ''address'' (JString (Address_String env (Log.Address (RpcLogEvent.Log le))))
                 (Map_of doc))))"
    by (elim exE conjE)
  have k: "keys out = {''address'', ''dataPrefix'', ''functionSelector''} \<union> keys doc"
    unfolding out by (simp add: keys_def insert_commute)
  have l1: "lookup out ''address'' = Some (JString (Address_String env (Log.Address (RpcLogEvent.Log le))))"
    unfolding out by (simp add: lookup_def)
  have l2: "lookup out ''dataPrefix'' = Some (JString (Hash_String (Topics (RpcLogEvent.Log le) ! 1)))"
    unfolding out by (simp add: lookup_def)
  have l3: "lookup out ''functionSelector'' = Some (JString ''76005c26'')"
    unfolding out by (simp add: lookup_def)
  have l4: "\<forall>k. k \<notin> {''address'', ''dataPrefix'', ''functionSelector''} \<longrightarrow> lookup out k = lookup doc k"
    unfolding out by (simp add: lookup_def)
  from doc k l1 l2 l3 l4
  show "\<exists>doc. Unmarshal env (TrimRight (drop 64 (Log.Data (RpcLogEvent.Log le))) [CHR 0x00]) = Inr doc \<and>
           keys out = {''address'', ''dataPrefix'', ''functionSelector''} \<union> keys doc \<and>
           lookup out ''address'' = Some (JString (Address_String env (Log.Address (RpcLogEvent.Log le)))) \<and>
           lookup out ''dataPrefix'' = Some (JString (Hash_String (Topics (RpcLogEvent.Log le) ! 1))) \<and>
           lookup out ''functionSelector'' = Some (JString ''76005c26'') \<and>
           (\<forall>k. k \<notin> {''address'', ''dataPrefix'', ''functionSelector''} \<longrightarrow> lookup out k = lookup doc k)"
    by (intro exI[of _ doc] conjI)
qed

lemma length_be_bytes: "length (be_bytes k n) = k"
  by (induction k n rule: be_bytes.induct) simp_all

lemma length_uint256_bytes: "length (uint256_bytes n) = 32"
  by (simp add: uint256_bytes_def length_be_bytes)

lemma TrimRight_padding:
  assumes "z \<notin> set s"
  shows "TrimRight (s @ replicate n z) [z] = s"
proof -
  have "dropWhile (\<lambda>c. c = z) (replicate n z @ rev s) = dropWhile (\<lambda>c. c = z) (rev s)"
    by (rule dropWhile_append2) simp
  also have "\<dots> = rev s"
    using assms by (intro dropWhile_id) auto
  finally show ?thesis
    by (simp add: TrimRight_def)
qed

lemma drop_abi_head: "drop 64 (abi_encode_string s) = s @ replicate ((32 - length s mod 32) mod 32) (CHR 0x00)"
  by (simp add: abi_encode_string_def length_uint256_bytes)

lemma length_abi_encode_string: "64 \<le> length (abi_encode_string s)"
  by (simp add: abi_encode_string_def length_uint256_bytes)

lemma pad_aligned: "(n + (32 - n mod 32) mod 32) mod 32 = (0::nat)"
proof (cases "n mod 32 = 0")
  case True
  then show ?thesis by simp
next
  case False
  then have lt: "32 - n mod 32 < 32" by simp
  have "n mod 32 < 32" by simp
  then have "n mod 32 + (32 - n mod 32) = 32" by simp
  then have "(n mod 32 + (32 - n mod 32)) mod 32 = 0" by simp
  then have "(n + (32 - n mod 32)) mod 32 = 0"
    by (metis mod_add_left_eq)
  with lt show ?thesis by simp
qed

lemma abi_encode_string_aligned: "length (abi_encode_string s) mod 32 = 0"
proof -
  have "length (abi_encode_string s) = 64 + (length s + (32 - length s mod 32) mod 32)"
    by (simp add: abi_encode_string_def length_uint256_bytes)
  moreover have "(64 + (length s + (32 - length s mod 32) mod 32)) mod 32
      = (length s + (32 - length s mod 32) mod 32) mod 32"
    by (metis (no_types) add.commute mod_add_self2 mod_mult_self1 mult_2 numeral_Bit0)
  ultimately show ?thesis
    by (simp add: pad_aligned)
qed

lemma decodeABIToJSON_abi_encode_string:
  "CHR 0x00 \<notin> set s \<Longrightarrow> decodeABIToJSON env (abi_encode_string s) = Inr (Unmarshal env s)"
  by (simp add: decodeABIToJSON_eq length_abi_encode_string drop_abi_head TrimRight_padding)

lemma sample_event_payload:
  "TrimRight (drop 64 (Log.Data (RpcLogEvent.Log sample_event))) [CHR 0x00] = sample_bytes"
  by (simp add: sample_event_def event_with_def drop_abi_head TrimRight_padding sample_bytes_no_zero)

text \<open>
  The sample event decodes to the sample document and the three added fields.
\<close>

theorem RunLogJSON_decodes_and_augments_witness:
  "\<exists>out. RunLogJSON sample_env sample_event = Inr (Inr out) \<and>
     keys out = {''address'', ''dataPrefix'', ''functionSelector'', ''value''} \<and>
     lookup out ''value'' = Some (JString ''100'')"
proof -
  have parse: "Unmarshal sample_env (TrimRight (drop 64 (Log.Data (RpcLogEvent.Log sample_event))) [CHR 0x00])
      = Inr sample_doc"
    by (simp add: sample_event_payload sample_env_def)
  have pre: "64 \<le> length (Log.Data (RpcLogEvent.Log sample_event)) \<and>
      1 < length (Topics (RpcLogEvent.Log sample_event))"
    by (simp add: sample_event_def event_with_def length_abi_encode_string)
  from RunLogJSON_decodes_and_augments[of sample_env sample_event] pre parse
  obtain out where out: "RunLogJSON sample_env sample_event = Inr (Inr out)"
    by blast
  from RunLogJSON_decodes_and_augments[of sample_env sample_event out] out parse
  have "keys out = {''address'', ''dataPrefix'', ''functionSelector''} \<union> keys sample_doc"
    and "lookup out ''value'' = lookup sample_doc ''value''"
    by auto
  then have "keys out = {''address'', ''dataPrefix'', ''functionSelector'', ''value''}"
    and "lookup out ''value'' = Some (JString ''100'')"
    by (auto simp add: sample_doc_def keys_def lookup_def)
  with out show ?thesis by blast
qed

text \<open>
  Claim C9: for a document \<open>x\<close> whose serialized bytes \<open>ser x\<close> contain no zero
  byte and parse back to \<open>x\<close>, decoding the fixed-offset encoding of \<open>ser x\<close> returns
  \<open>x\<close>; and \<open>RunLogJSON\<close> on an event carrying that encoding returns a payload that
  agrees with \<open>x\<close> on every key other than the three added ones.
\<close>

theorem decodeABIToJSON_roundtrip:
  assumes "CHR 0x00 \<notin> set (ser x)" and "Unmarshal env (ser x) = Inr x"
  shows "decodeABIToJSON env (abi_encode_string (ser x)) = Inr (Inr x) \<and>
     (Log.Data (RpcLogEvent.Log le) = abi_encode_string (ser x) \<and>
      1 < length (Topics (RpcLogEvent.Log le)) \<longrightarrow>
        (\<exists>out. RunLogJSON env le = Inr (Inr out) \<and>
           (\<forall>k. k \<notin> {''address'', ''dataPrefix'', ''functionSelector''} \<longrightarrow>
              lookup out k = lookup x k)))"
proof (intro conjI impI)
  show dec: "decodeABIToJSON env (abi_encode_string (ser x)) = Inr (Inr x)"
    using assms by (simp add: decodeABIToJSON_abi_encode_string)
  assume le: "Log.Data (RpcLogEvent.Log le) = abi_encode_string (ser x) \<and>
      1 < length (Topics (RpcLogEvent.Log le))"
  have payload: "TrimRight (drop 64 (Log.Data (RpcLogEvent.Log le))) [CHR 0x00] = ser x"
    using le assms(1) by (simp add: drop_abi_head TrimRight_padding)
  have "\<exists>out. RunLogJSON env le = Inr (Inr out)"
    using le assms(2) payload
    by (simp add: RunLogJSON_success_iff length_abi_encode_string)
  then obtain out where out: "RunLogJSON env le = Inr (Inr out)" ..
  from RunLogJSON_output[OF out] payload assms(2)
  have "out = JObject (fmupd ''functionSelector'' (JString ''76005c26'')
             (fmupd ''dataPrefix'' (JString (Hash_String (Topics (RpcLogEvent.Log le) ! 1)))
               (fmupd ''address'' (JString (Address_String env (Log.Address (RpcLogEvent.Log le))))
                 (Map_of x))))"
    by simp
  then have "\<forall>k. k \<notin> {''address'', ''dataPrefix'', ''functionSelector''} \<longrightarrow>
              lookup out k = lookup x k"
    by (simp add: lookup_def)
  with out show "\<exists>out. RunLogJSON env le = Inr (Inr out) \<and>
           (\<forall>k. k \<notin> {''address'', ''dataPrefix'', ''functionSelector''} \<longrightarrow>
              lookup out k = lookup x k)"
    by (intro exI[of _ out] conjI)
qed

text \<open>
  The encoding of the sample bytes decodes to the sample document.
\<close>

theorem decodeABIToJSON_roundtrip_witness:
  "decodeABIToJSON sample_env (abi_encode_string sample_bytes) = Inr (Inr sample_doc)"
proof -
  have "Unmarshal sample_env sample_bytes = Inr sample_doc"
    by (simp add: sample_env_def)
  from decodeABIToJSON_roundtrip[of "\<lambda>x. sample_bytes" sample_doc sample_env, OF sample_bytes_no_zero this]
  show ?thesis by simp
qed

section \<open>Properties of the handlers\<close>

lemma dispatches_append: "dispatches (xs @ ys) = dispatches xs + dispatches ys"
  by (simp add: dispatches_def)

lemma runJob_trace:
  "trace (runJob env le data w) =
     trace w @ BeginRunCalled (RpcLogEvent.Job le) \<lparr>Data = data\<rparr>
       # (case BeginRun env (RpcLogEvent.Job le) \<lparr>Data = data\<rparr> of
            None \<Rightarrow> []
          | Some err \<Rightarrow> [Logged LError err])"
  by (simp add: runJob_def Let_def emit_def logger_def split: option.split)

lemma runJob_effects:
  obtains es where "trace (runJob env le data w) = trace w @ es" and "dispatches es = 1"
proof
  show "trace (runJob env le data w) =
     trace w @ (BeginRunCalled (RpcLogEvent.Job le) \<lparr>Data = data\<rparr>
       # (case BeginRun env (RpcLogEvent.Job le) \<lparr>Data = data\<rparr> of
            None \<Rightarrow> []
          | Some err \<Rightarrow> [Logged LError err]))"
    by (rule runJob_trace)
  show "dispatches (BeginRunCalled (RpcLogEvent.Job le) \<lparr>Data = data\<rparr>
       # (case BeginRun env (RpcLogEvent.Job le) \<lparr>Data = data\<rparr> of
            None \<Rightarrow> []
          | Some err \<Rightarrow> [Logged LError err])) = 1"
    by (simp add: dispatches_def split: option.split)
qed

lemma logger_trace: "trace (logger lvl msg w) = trace w @ [Logged lvl msg]"
  by (simp add: logger_def emit_def)

lemma dispatches_Logged: "dispatches [Logged lvl msg] = 0"
  by (simp add: dispatches_def)

lemma ReceiveRunLog_effects:
  "\<exists>es. trace (snd (ReceiveRunLog env le w)) = trace w @ es \<and> dispatches es \<le> 1"
proof (cases le w rule: ValidateRunLog_cases)
  case (reject lvl msg)
  then have "trace (snd (ReceiveRunLog env le w)) = trace w @ [Logged lvl msg]"
    by (simp add: ReceiveRunLog_def logger_trace)
  then show ?thesis
    using dispatches_Logged[of lvl msg] by (intro exI[of _ "[Logged lvl msg]"]) simp
next
  case accept
  define msg where "msg = ''Received log for address ''
      @ LogListeningAddress env (Initiator.Address (RpcLogEvent.Initiator le)) @ '' for job ''
      @ ID (RpcLogEvent.Job le)"
  define w2 where "w2 = logger LInfo msg w"
  have w2: "trace w2 = trace w @ [Logged LInfo msg]"
    by (simp add: w2_def logger_trace)
  have R: "ReceiveRunLog env le w =
      (case RunLogJSON env le of
         Inl f \<Rightarrow> (Inl f, w2)
       | Inr (Inl err) \<Rightarrow> (Inr (), logger LError err w2)
       | Inr (Inr data) \<Rightarrow> (Inr (), runJob env le data w2))"
    unfolding ReceiveRunLog_def accept Let_def w2_def msg_def by simp
  show ?thesis
  proof (cases "RunLogJSON env le")
    case (Inl f)
    with R w2 have "trace (snd (ReceiveRunLog env le w)) = trace w @ [Logged LInfo msg]"
      by simp
    then show ?thesis
      using dispatches_Logged[of LInfo msg] by (intro exI[of _ "[Logged LInfo msg]"]) simp
  next
    case (Inr r)
    show ?thesis
    proof (cases r)
      case (Inl err)
      with Inr R w2 have "trace (snd (ReceiveRunLog env le w)) = trace w @ [Logged LInfo msg, Logged LError err]"
        by (simp add: logger_trace)
      then show ?thesis
        by (intro exI[of _ "[Logged LInfo msg, Logged LError err]"]) (simp add: dispatches_def)
    next
      case (Inr data)
      obtain es where es: "trace (runJob env le data w2) = trace w2 @ es" "dispatches es = 1"
        by (rule runJob_effects)
      with Inr \<open>RunLogJSON env le = Inr r\<close> R w2
      have "trace (snd (ReceiveRunLog env le w)) = trace w @ (Logged LInfo msg # es)"
        by simp
      then show ?thesis
        using es(2) by (intro exI[of _ "Logged LInfo msg # es"]) (simp add: dispatches_def)
    qed
  qed
qed

lemma ReceiveEthLog_effects:
  "\<exists>es. trace (snd (ReceiveEthLog env le w)) = trace w @ es \<and> dispatches es \<le> 1"
proof -
  define msg where "msg = ''Received log for address ''
      @ LogListeningAddress env (Initiator.Address (RpcLogEvent.Initiator le)) @ '' for job ''
      @ ID (RpcLogEvent.Job le)"
  define w1 where "w1 = logger LInfo msg w"
  have w1: "trace w1 = trace w @ [Logged LInfo msg]"
    by (simp add: w1_def logger_trace)
  have R: "ReceiveEthLog env le w =
      (case EthLogJSON env le of
         Inl err \<Rightarrow> (Inr (), logger LError err w1)
       | Inr data \<Rightarrow> (Inr (), runJob env le data w1))"
    unfolding ReceiveEthLog_def Let_def w1_def msg_def by simp
  show ?thesis
  proof (cases "EthLogJSON env le")
    case (Inl err)
    with R w1 have "trace (snd (ReceiveEthLog env le w)) = trace w @ [Logged LInfo msg, Logged LError err]"
      by (simp add: logger_trace)
    then show ?thesis
      by (intro exI[of _ "[Logged LInfo msg, Logged LError err]"]) (simp add: dispatches_def)
  next
    case (Inr data)
    obtain es where es: "trace (runJob env le data w1) = trace w1 @ es" "dispatches es = 1"
      by (rule runJob_effects)
    with Inr R w1
    have "trace (snd (ReceiveEthLog env le w)) = trace w @ (Logged LInfo msg # es)"
      by simp
    then show ?thesis
      using es(2) by (intro exI[of _ "Logged LInfo msg # es"]) (simp add: dispatches_def)
  qed
qed

lemma listenToLogs_effects:
  assumes "\<And>le w. \<exists>es. trace (snd (ReceiveLog sub env le w)) = trace w @ es \<and> dispatches es \<le> 1"
  shows "\<exists>es. trace (snd (listenToLogs env sub els w)) = trace w @ es \<and> dispatches es \<le> length els"
proof (induction els arbitrary: w)
  case Nil
  show ?case by (simp add: dispatches_def)
next
  case (Cons el els)
  define le where "le = \<lparr>RpcLogEvent.Log = el, RpcLogEvent.Job = RpcLogSubscription.Job sub,
              RpcLogEvent.Initiator = RpcLogSubscription.Initiator sub\<rparr>"
  obtain r w1 where r: "ReceiveLog sub env le w = (r, w1)"
    by (cases "ReceiveLog sub env le w")
  from assms[of le w] r obtain es1 where es1: "trace w1 = trace w @ es1" "dispatches es1 \<le> 1"
    by auto
  show ?case
  proof (cases r)
    case (Inl f)
    with r have "snd (listenToLogs env sub (el # els) w) = w1"
      by (simp add: le_def)
    with es1 show ?thesis
      by (intro exI[of _ es1]) simp
  next
    case (Inr u)
    with r have step: "listenToLogs env sub (el # els) w = listenToLogs env sub els w1"
      by (simp add: le_def)
    from Cons.IH[of w1] obtain es2 where
      es2: "trace (snd (listenToLogs env sub els w1)) = trace w1 @ es2" "dispatches es2 \<le> length els"
      by blast
    from step es1 es2 show ?thesis
      by (intro exI[of _ "es1 @ es2"]) (simp add: dispatches_append)
  qed
qed

text \<open>
  Claim C8: a handler call for one raw event extends the trace by at most one call of
  \<open>BeginRun\<close>, for the RunLog and for the EthLog handler. \<open>runJob\<close> calls
  \<open>BeginRun\<close> once; a rejection adds one error log line after it and no further call.
  So a listener that receives a sequence of events dispatches at most once per event.
\<close>

theorem handlers_dispatch_at_most_once:
  "(\<exists>es. trace (snd (ReceiveRunLog env le w)) = trace w @ es \<and> dispatches es \<le> 1) \<and>
   (\<exists>es. trace (snd (ReceiveEthLog env le w)) = trace w @ es \<and> dispatches es \<le> 1) \<and>
   trace (runJob env le data w) =
     trace w @ BeginRunCalled (RpcLogEvent.Job le) \<lparr>Data = data\<rparr>
       # (case BeginRun env (RpcLogEvent.Job le) \<lparr>Data = data\<rparr> of
            None \<Rightarrow> []
          | Some err \<Rightarrow> [Logged LError err]) \<and>
   (ReceiveLog sub = ReceiveRunLog \<or> ReceiveLog sub = ReceiveEthLog \<longrightarrow>
      (\<exists>es. trace (snd (listenToLogs env sub els w)) = trace w @ es \<and> dispatches es \<le> length els))"
proof (intro conjI impI)
  show "\<exists>es. trace (snd (ReceiveRunLog env le w)) = trace w @ es \<and> dispatches es \<le> 1"
    by (rule ReceiveRunLog_effects)
  show "\<exists>es. trace (snd (ReceiveEthLog env le w)) = trace w @ es \<and> dispatches es \<le> 1"
    by (rule ReceiveEthLog_effects)
  show "trace (runJob env le data w) =
     trace w @ BeginRunCalled (RpcLogEvent.Job le) \<lparr>Data = data\<rparr>
       # (case BeginRun env (RpcLogEvent.Job le) \<lparr>Data = data\<rparr> of
            None \<Rightarrow> []
          | Some err \<Rightarrow> [Logged LError err])"
    by (rule runJob_trace)
next
  assume "ReceiveLog sub = ReceiveRunLog \<or> ReceiveLog sub = ReceiveEthLog"
  then have "\<And>le w. \<exists>es. trace (snd (ReceiveLog sub env le w)) = trace w @ es \<and> dispatches es \<le> 1"
    using ReceiveRunLog_effects ReceiveEthLog_effects by (elim disjE) simp_all
  then show "\<exists>es. trace (snd (listenToLogs env sub els w)) = trace w @ es \<and> dispatches es \<le> length els"
    by (rule listenToLogs_effects)
qed

text \<open>
  Two events through the RunLog listener give at most two dispatches.
\<close>

theorem handlers_dispatch_at_most_once_witness:
  "\<exists>es. trace (snd (listenToLogs sample_env sample_sub
                       [RpcLogEvent.Log sample_event, RpcLogEvent.Log other_event] w4))
          = trace w4 @ es \<and> dispatches es \<le> 2"
proof -
  have "ReceiveLog sample_sub = ReceiveRunLog \<or> ReceiveLog sample_sub = ReceiveEthLog"
    by (simp add: sample_sub_def)
  with handlers_dispatch_at_most_once[of sample_env sample_event w4 sample_doc sample_sub
      "[RpcLogEvent.Log sample_event, RpcLogEvent.Log other_event]"]
  have "\<exists>es. trace (snd (listenToLogs sample_env sample_sub
                       [RpcLogEvent.Log sample_event, RpcLogEvent.Log other_event] w4))
          = trace w4 @ es \<and>
          dispatches es \<le> length [RpcLogEvent.Log sample_event, RpcLogEvent.Log other_event]"
    by blast
  then show ?thesis
    by (simp add: numeral_2_eq_2 del: listenToLogs.simps)
qed

text \<open>
  An accepted event whose data is shorter than 64 bytes makes \<open>ReceiveRunLog\<close> end
  in a slice fault, with nothing dispatched. When the data has its 64 leading bytes and
  the rest does not parse, the error is logged and the event is dropped.
\<close>

lemma ReceiveRunLog_short_data:
  assumes "fst (ValidateRunLog le w) = Inr True"
    and "length (Log.Data (RpcLogEvent.Log le)) < 64"
  shows "fst (ReceiveRunLog env le w) = Inl SliceBoundsOutOfRange \<and>
         dispatches (trace (snd (ReceiveRunLog env le w))) = dispatches (trace w)"
proof -
  from assms(1) have v: "ValidateRunLog le w = (Inr True, w)"
    by (cases le w rule: ValidateRunLog_cases) simp_all
  from assms(2) have d: "RunLogJSON env le = Inl SliceBoundsOutOfRange"
    by (simp add: RunLogJSON_def decodeABIToJSON_eq)
  show ?thesis
    unfolding ReceiveRunLog_def v Let_def
    by (simp add: d logger_trace dispatches_append dispatches_Logged)
qed

lemma ReceiveRunLog_decode_error:
  assumes "fst (ValidateRunLog le w) = Inr True"
    and "64 \<le> length (Log.Data (RpcLogEvent.Log le))"
    and "Unmarshal env (TrimRight (drop 64 (Log.Data (RpcLogEvent.Log le))) [CHR 0x00]) = Inl err"
  shows "fst (ReceiveRunLog env le w) = Inr () \<and>
         dispatches (trace (snd (ReceiveRunLog env le w))) = dispatches (trace w) \<and>
         last (trace (snd (ReceiveRunLog env le w))) = Logged LError err"
proof -
  from assms(1) have v: "ValidateRunLog le w = (Inr True, w)"
    by (cases le w rule: ValidateRunLog_cases) simp_all
  from assms(2,3) have d: "RunLogJSON env le = Inr (Inl err)"
    by (simp add: RunLogJSON_def decodeABIToJSON_eq)
  show ?thesis
    unfolding ReceiveRunLog_def v Let_def
    by (simp add: d logger_trace dispatches_append dispatches_def)
qed

text \<open>
  Claim C5 at the event with empty data: the validator accepts it, and decoding it is a
  panic of the listener, not a decode error.
\<close>

theorem ReceiveRunLog_short_data_panics:
  "fst (ValidateRunLog short_event w0) = Inr True \<and>
   fst (ReceiveRunLog sample_env short_event w0) = Inl SliceBoundsOutOfRange"
proof -
  have v: "fst (ValidateRunLog short_event w0) = Inr True"
    by (simp add: ValidateRunLog_fst short_event_def event_with_def sample_job_def
        HexToString_Hash_Hex)
  have "length (Log.Data (RpcLogEvent.Log short_event)) < 64"
    by (simp add: short_event_def event_with_def)
  from ReceiveRunLog_short_data[OF v this, of sample_env] v show ?thesis
    by simp
qed

section \<open>Properties of opening a job subscription\<close>

lemma subscribe_calls_append: "subscribe_calls (xs @ ys) = subscribe_calls xs @ subscribe_calls ys"
  by (induction xs rule: subscribe_calls.induct) simp_all

lemma attempts_append:
  "attempts env c (xs @ ys) = attempts env c xs @ attempts env (c + 2 * length xs) ys"
  by (induction env c xs rule: attempts.induct) simp_all

lemma length_attempts: "length (attempts env c xs) = length xs"
  by (induction env c xs rule: attempts.induct) simp_all

lemma NewRpcLogSubscription_eq:
  "NewRpcLogSubscription env initr job cb (logListening env initr w) = ((sub, err), w1) \<Longrightarrow>
     (let a = (chans w, cb, initr,
               SubscribeToLogs env (Suc (chans w)) (ToFilterQueryFor (Head env) [Initiator.Address initr]))
      in multierr_Append merr err = merr @ failure_of a \<and>
         (if err = None then subs @ [sub] else subs) = subs @ success_of job a \<and>
         chans w1 = chans w + 2 \<and> closed w1 = closed w \<and>
         subscribe_calls (trace w1) = subscribe_calls (trace w) @ [call_of env a])"
  by (auto simp: NewRpcLogSubscription_def logListening_def logger_def emit_def make_chan_def
      multierr_Append_def Let_def subscribe_calls_append split: sum.splits)

lemma startEach_eq:
  "startEach (\<lambda>initr w. NewRpcLogSubscription env initr job cb (logListening env initr w))
       inits merr subs w = ((merr', subs'), w') \<Longrightarrow>
     merr' = merr @ concat (map failure_of (attempts env (chans w) (map (Pair cb) inits))) \<and>
     subs' = subs @ concat (map (success_of job) (attempts env (chans w) (map (Pair cb) inits))) \<and>
     chans w' = chans w + 2 * length inits \<and> closed w' = closed w \<and>
     subscribe_calls (trace w') =
       subscribe_calls (trace w) @ map (call_of env) (attempts env (chans w) (map (Pair cb) inits))"
proof (induction inits arbitrary: merr subs w)
  case Nil
  then show ?case by simp
next
  case (Cons initr inits)
  obtain sub err w1 where
    new: "NewRpcLogSubscription env initr job cb (logListening env initr w) = ((sub, err), w1)"
    by (metis surj_pair)
  note step = NewRpcLogSubscription_eq[OF new, of merr subs, unfolded Let_def]
  from Cons.prems new
  have rest: "startEach (\<lambda>initr w. NewRpcLogSubscription env initr job cb (logListening env initr w))
       inits (multierr_Append merr err) (if err = None then subs @ [sub] else subs) w1 = ((merr', subs'), w')"
    by simp
  from Cons.IH[OF rest] step show ?case
    by simp
qed

lemma no_success_iff: "concat (map (success_of job) as) = [] \<longleftrightarrow> (\<forall>a \<in> set as. failed a)"
proof (induction as)
  case Nil
  show ?case by simp
next
  case (Cons a as)
  obtain c cb initr r where a: "a = (c, cb, initr, r)"
    by (metis surj_pair)
  from Cons show ?case
    by (cases r) (simp_all add: a)
qed

lemma StartJobSubscription_eq:
  "StartJobSubscription env job w = ((js, err), w') \<Longrightarrow>
     (let as = attempts env (chans w) (logInitiators job) in
        (if \<forall>a \<in> set as. failed a
         then js = zero_JobSubscription \<and>
              err = concat (map failure_of as) @ [''Job must have a valid log initiator'']
         else js = \<lparr>Job = job, unsubscribers = concat (map (success_of job) as)\<rparr> \<and>
              err = concat (map failure_of as)) \<and>
        chans w' = chans w + 2 * length as \<and> closed w' = closed w \<and>
        subscribe_calls (trace w') = subscribe_calls (trace w) @ map (call_of env) as)"
proof -
  assume run: "StartJobSubscription env job w = ((js, err), w')"
  define eths where "eths = InitiatorsFor job InitiatorEthLog"
  define runs where "runs = InitiatorsFor job InitiatorRunLog"
  define as1 where "as1 = attempts env (chans w) (map (Pair ReceiveEthLog) eths)"
  obtain merr1 subs1 w1 where
    l1: "startEach (\<lambda>initr. StartEthLogSubscription env initr job) eths [] [] w = ((merr1, subs1), w1)"
    by (metis surj_pair)
  obtain merr2 subs2 w2 where
    l2: "startEach (\<lambda>initr. StartRunLogSubscription env initr job) runs merr1 subs1 w1 = ((merr2, subs2), w2)"
    by (metis surj_pair)
  define as2 where "as2 = attempts env (chans w1) (map (Pair ReceiveRunLog) runs)"
  have e1: "merr1 = concat (map failure_of as1)" "subs1 = concat (map (success_of job) as1)"
    "chans w1 = chans w + 2 * length eths" "closed w1 = closed w"
    "subscribe_calls (trace w1) = subscribe_calls (trace w) @ map (call_of env) as1"
    using startEach_eq[of env job ReceiveEthLog eths "[]" "[]" w merr1 subs1 w1] l1
    unfolding StartEthLogSubscription_def as1_def by simp_all
  have e2: "merr2 = merr1 @ concat (map failure_of as2)"
    "subs2 = subs1 @ concat (map (success_of job) as2)"
    "chans w2 = chans w1 + 2 * length runs" "closed w2 = closed w1"
    "subscribe_calls (trace w2) = subscribe_calls (trace w1) @ map (call_of env) as2"
    using startEach_eq[of env job ReceiveRunLog runs merr1 subs1 w1 merr2 subs2 w2] l2
    unfolding StartRunLogSubscription_def as2_def by simp_all
  have as: "attempts env (chans w) (logInitiators job) = as1 @ as2"
    by (simp add: logInitiators_def attempts_append as1_def as2_def e1(3) eths_def runs_def)
  have len: "length (as1 @ as2) = length eths + length runs"
    by (simp add: as1_def as2_def length_attempts)
  have subs2: "subs2 = concat (map (success_of job) (as1 @ as2))"
    and merr2: "merr2 = concat (map failure_of (as1 @ as2))"
    using e1 e2 by simp_all
  have res: "((js, err), w') =
      (if length subs2 = 0
       then ((zero_JobSubscription,
              multierr_Append merr2 (Some ''Job must have a valid log initiator'')), w2)
       else ((\<lparr>Job = job, unsubscribers = subs2\<rparr>, merr2), w2))"
    using run l1 l2 unfolding StartJobSubscription_def eths_def runs_def by simp
  have none: "length subs2 = 0 \<longleftrightarrow> (\<forall>a \<in> set (as1 @ as2). failed a)"
    unfolding subs2 using no_success_iff[of job "as1 @ as2"] by simp
  show ?thesis
  proof (cases "\<forall>a \<in> set (as1 @ as2). failed a")
    case True
    with none have "length subs2 = 0" by blast
    with res have "js = zero_JobSubscription"
      "err = merr2 @ [''Job must have a valid log initiator'']" "w' = w2"
      by (simp_all add: multierr_Append_def)
    with True as len e1 e2 merr2 show ?thesis
      unfolding Let_def by simp
  next
    case False
    with none have "length subs2 \<noteq> 0" by blast
    with res have "js = \<lparr>Job = job, unsubscribers = subs2\<rparr>" "err = merr2" "w' = w2"
      by simp_all
    with False as len e1 e2 merr2 subs2 show ?thesis
      unfolding Let_def by simp
  qed
qed

lemma sample_address_not_zero: "sample_address \<noteq> ZeroAddress"
  by code_simp

lemma sample_attempts:
  "attempts sample_env (chans w0) (logInitiators sample_job) =
     [(0, ReceiveEthLog, ethlog_initiator, Inl ''connection refused''),
      (2, ReceiveRunLog, runlog_initiator, Inr \<lparr>ident = 3, Err = Some 3\<rparr>)]"
  by (simp add: logInitiators_def InitiatorsFor_def sample_job_def runlog_initiator_def
      ethlog_initiator_def InitiatorEthLog_def InitiatorRunLog_def w0_def sample_env_def
      ToFilterQueryFor_def sample_address_not_zero numeral_3_eq_3)

lemma zero_attempts: "attempts sample_env (chans w0) (logInitiators zero_Job) = []"
  by (simp add: logInitiators_def InitiatorsFor_def zero_Job_def)

lemma refused_attempts:
  "attempts sample_env (chans w0) (logInitiators refused_job) =
     [(0, ReceiveEthLog, ethlog_initiator, Inl ''connection refused'')]"
  by (simp add: logInitiators_def InitiatorsFor_def refused_job_def ethlog_initiator_def
      InitiatorEthLog_def InitiatorRunLog_def w0_def sample_env_def ToFilterQueryFor_def)

lemma StartJobSubscription_collapse:
  "StartJobSubscription env job w =
     ((fst (fst (StartJobSubscription env job w)), snd (fst (StartJobSubscription env job w))),
      snd (StartJobSubscription env job w))"
  by simp

text \<open>
  Claim C3: \<open>StartJobSubscription\<close> returns an error together with a handle that
  retains no subscription if and only if every attempt failed, which includes a job with
  no log initiator; the handle is then the zero handle. When at least one attempt
  succeeded, the handle holds the job and the subscriptions of the successful attempts, in
  order, and there is at least one.
\<close>

theorem StartJobSubscription_fails_iff_all_attempts_fail:
  assumes "StartJobSubscription env job w = ((js, err), w')"
  shows "((err \<noteq> [] \<and> unsubscribers js = []) \<longleftrightarrow>
            (\<forall>a \<in> set (attempts env (chans w) (logInitiators job)). failed a)) \<and>
         ((\<forall>a \<in> set (attempts env (chans w) (logInitiators job)). failed a) \<longrightarrow>
            js = zero_JobSubscription) \<and>
         ((\<exists>a \<in> set (attempts env (chans w) (logInitiators job)). \<not> failed a) \<longrightarrow>
            js = \<lparr>Job = job,
                  unsubscribers = concat (map (success_of job)
                                    (attempts env (chans w) (logInitiators job)))\<rparr> \<and>
            unsubscribers js \<noteq> [])"
proof -
  define as where "as = attempts env (chans w) (logInitiators job)"
  note eq = StartJobSubscription_eq[OF assms, unfolded Let_def, folded as_def]
  have "((err \<noteq> [] \<and> unsubscribers js = []) \<longleftrightarrow> (\<forall>a \<in> set as. failed a)) \<and>
         ((\<forall>a \<in> set as. failed a) \<longrightarrow> js = zero_JobSubscription) \<and>
         ((\<exists>a \<in> set as. \<not> failed a) \<longrightarrow>
            js = \<lparr>Job = job, unsubscribers = concat (map (success_of job) as)\<rparr> \<and>
            unsubscribers js \<noteq> [])"
  proof (cases "\<forall>a \<in> set as. failed a")
    case True
    with eq have js: "js = zero_JobSubscription"
      and err: "err = concat (map failure_of as) @ [''Job must have a valid log initiator'']"
      by simp_all
    from err have A: "err \<noteq> []" by simp
    from js have B: "unsubscribers js = []" by (simp add: zero_JobSubscription_def)
    from True A B js show ?thesis by blast
  next
    case False
    with eq have js: "js = \<lparr>Job = job, unsubscribers = concat (map (success_of job) as)\<rparr>"
      by simp
    from False no_success_iff[of job as] have "concat (map (success_of job) as) \<noteq> []"
      by blast
    with js have B: "unsubscribers js \<noteq> []" by simp
    from False B js show ?thesis by blast
  qed
  then show ?thesis
    unfolding as_def .
qed

text \<open>
  The sample job keeps its RunLog subscription although its EthLog attempt fails; the
  job whose only attempt is refused, and a job with no initiator, get an error and the
  zero handle.
\<close>

theorem StartJobSubscription_fails_iff_all_attempts_fail_witness:
  "unsubscribers (fst (fst (StartJobSubscription sample_env sample_job w0))) = [sample_sub] \<and>
   snd (fst (StartJobSubscription sample_env refused_job w0)) \<noteq> [] \<and>
   fst (fst (StartJobSubscription sample_env refused_job w0)) = zero_JobSubscription \<and>
   snd (fst (StartJobSubscription sample_env zero_Job w0)) \<noteq> [] \<and>
   unsubscribers (fst (fst (StartJobSubscription sample_env zero_Job w0))) = []"
proof -
  have ok: "\<exists>a \<in> set (attempts sample_env (chans w0) (logInitiators sample_job)). \<not> failed a"
    by (simp add: sample_attempts)
  from StartJobSubscription_fails_iff_all_attempts_fail[OF StartJobSubscription_collapse,
      of sample_env sample_job w0] ok
  have "unsubscribers (fst (fst (StartJobSubscription sample_env sample_job w0))) =
      concat (map (success_of sample_job) (attempts sample_env (chans w0) (logInitiators sample_job)))"
    by simp
  then have a: "unsubscribers (fst (fst (StartJobSubscription sample_env sample_job w0))) = [sample_sub]"
    by (simp add: sample_attempts sample_sub_def)
  have refused: "\<forall>a \<in> set (attempts sample_env (chans w0) (logInitiators refused_job)). failed a"
    by (simp add: refused_attempts)
  from StartJobSubscription_fails_iff_all_attempts_fail[OF StartJobSubscription_collapse,
      of sample_env refused_job w0] refused
  have r: "snd (fst (StartJobSubscription sample_env refused_job w0)) \<noteq> [] \<and>
      fst (fst (StartJobSubscription sample_env refused_job w0)) = zero_JobSubscription"
    by blast
  have none: "\<forall>a \<in> set (attempts sample_env (chans w0) (logInitiators zero_Job)). failed a"
    by (simp add: zero_attempts)
  from StartJobSubscription_fails_iff_all_attempts_fail[OF StartJobSubscription_collapse,
      of sample_env zero_Job w0] none
  have b: "snd (fst (StartJobSubscription sample_env zero_Job w0)) \<noteq> [] \<and>
      unsubscribers (fst (fst (StartJobSubscription sample_env zero_Job w0))) = []"
    by blast
  from a r b show ?thesis by simp
qed

text \<open>
  Claim C4: the error \<open>StartJobSubscription\<close> returns is the list of the errors of
  the failed attempts, in the order of the attempts, followed by one more error when no
  attempt succeeded; it is returned as it is when some attempt succeeded, beside the
  handle, which retains the subscription of every successful attempt. The transaction
  manager is asked once for each EthLog and RunLog initiator, in that order.
\<close>

theorem StartJobSubscription_accumulates_failures:
  assumes "StartJobSubscription env job w = ((js, err), w')"
  shows "err = concat (map failure_of (attempts env (chans w) (logInitiators job)))
               @ (if \<forall>a \<in> set (attempts env (chans w) (logInitiators job)). failed a
                  then [''Job must have a valid log initiator''] else []) \<and>
         unsubscribers js =
           concat (map (success_of job) (attempts env (chans w) (logInitiators job))) \<and>
         subscribe_calls (trace w') =
           subscribe_calls (trace w)
             @ map (call_of env) (attempts env (chans w) (logInitiators job)) \<and>
         length (attempts env (chans w) (logInitiators job)) =
           length (InitiatorsFor job InitiatorEthLog) + length (InitiatorsFor job InitiatorRunLog)"
proof (cases "\<forall>a \<in> set (attempts env (chans w) (logInitiators job)). failed a")
  case True
  then have "concat (map (success_of job) (attempts env (chans w) (logInitiators job))) = []"
    using no_success_iff[of job "attempts env (chans w) (logInitiators job)"] by blast
  with True StartJobSubscription_eq[OF assms] show ?thesis
    unfolding Let_def by (simp add: length_attempts logInitiators_def zero_JobSubscription_def)
next
  case False
  with StartJobSubscription_eq[OF assms] show ?thesis
    unfolding Let_def by (simp add: length_attempts logInitiators_def)
qed

text \<open>
  The sample job's open returns the EthLog attempt's error beside the retained RunLog
  subscription; the job whose only attempt is refused gets that error and one more.
\<close>

theorem StartJobSubscription_accumulates_failures_witness:
  "snd (fst (StartJobSubscription sample_env sample_job w0)) = [''connection refused''] \<and>
   unsubscribers (fst (fst (StartJobSubscription sample_env sample_job w0))) = [sample_sub] \<and>
   snd (fst (StartJobSubscription sample_env refused_job w0))
     = [''connection refused'', ''Job must have a valid log initiator'']"
proof -
  note t = StartJobSubscription_accumulates_failures[OF StartJobSubscription_collapse,
      of sample_env sample_job w0]
  note z = StartJobSubscription_accumulates_failures[OF StartJobSubscription_collapse,
      of sample_env refused_job w0]
  from t have "snd (fst (StartJobSubscription sample_env sample_job w0)) = [''connection refused'']"
    and "unsubscribers (fst (fst (StartJobSubscription sample_env sample_job w0))) = [sample_sub]"
    by (simp_all add: sample_attempts sample_sub_def)
  moreover from z have "snd (fst (StartJobSubscription sample_env refused_job w0))
      = [''connection refused'', ''Job must have a valid log initiator'']"
    by (simp add: refused_attempts)
  ultimately show ?thesis by simp
qed

section \<open>Properties of closing\<close>

lemma close_chan_open:
  "c \<notin> closed w \<Longrightarrow>
     close_chan (Some c) w = (Inr (), w\<lparr>closed := insert c (closed w), trace := trace w @ [Closed c]\<rparr>)"
  by (simp add: close_chan_def emit_def)

lemma RpcLogSubscription_Unsubscribe_open:
  assumes "logNotifications sub = Some lc" and "errors sub = Some ec"
    and "lc \<noteq> ec" and "lc \<notin> closed w" and "ec \<notin> closed w"
  shows "RpcLogSubscription_Unsubscribe sub w =
     (Inr (), w\<lparr>closed := insert ec (insert lc (closed w)),
                 trace := trace w @ upstream_unsubscribe sub @ [Closed lc, Closed ec]\<rparr>)"
proof -
  define w1 where "w1 = (case rpcSubscription sub of
                  None \<Rightarrow> w
                | Some rpc \<Rightarrow> if Err rpc \<noteq> None then emit (RpcUnsubscribed (ident rpc)) w else w)"
  have w1: "w1 = w\<lparr>trace := trace w @ upstream_unsubscribe sub\<rparr>"
    by (simp add: w1_def upstream_unsubscribe_def emit_def split: option.split)
  have c1: "close_chan (Some lc) w1 =
      (Inr (), w1\<lparr>closed := insert lc (closed w1), trace := trace w1 @ [Closed lc]\<rparr>)"
    using assms(4) by (intro close_chan_open) (simp add: w1)
  have c2: "close_chan (Some ec) (w1\<lparr>closed := insert lc (closed w1), trace := trace w1 @ [Closed lc]\<rparr>) =
      (Inr (), w\<lparr>closed := insert ec (insert lc (closed w)),
                 trace := trace w @ upstream_unsubscribe sub @ [Closed lc, Closed ec]\<rparr>)"
    using assms(3,5) by (simp add: close_chan_def emit_def w1)
  show ?thesis
    unfolding RpcLogSubscription_Unsubscribe_def Let_def w1_def[symmetric] assms(1,2)
    by (simp add: c1 c2)
qed

text \<open>
  Claim C6: for every open Log Subscription handle, \<open>Unsubscribe\<close> first unsubscribes
  from the upstream source and then closes the event stream and the error stream, without
  a fault. A handle is open when its upstream subscription is not nil and has an error
  channel (its \<open>Err()\<close> is not nil, as for every subscription a chain client hands
  out), and its two streams are present, distinct and not closed yet.
\<close>

theorem RpcLogSubscription_Unsubscribe_order:
  assumes "rpcSubscription sub = Some rpc" and "Err rpc \<noteq> None"
    and "logNotifications sub = Some lc" and "errors sub = Some ec"
    and "lc \<noteq> ec" and "lc \<notin> closed w" and "ec \<notin> closed w"
  shows "RpcLogSubscription_Unsubscribe sub w =
     (Inr (), w\<lparr>closed := insert ec (insert lc (closed w)),
                 trace := trace w @ [RpcUnsubscribed (ident rpc), Closed lc, Closed ec]\<rparr>)"
  using RpcLogSubscription_Unsubscribe_open[OF assms(3-7)] assms(1,2)
  by (simp add: upstream_unsubscribe_def)

text \<open>
  Closing the sample subscription: the upstream unsubscribe, then the two streams.
\<close>

theorem RpcLogSubscription_Unsubscribe_order_witness:
  "RpcLogSubscription_Unsubscribe sample_sub w4 =
     (Inr (), \<lparr>chans = 4, closed = {2, 3},
               trace = [RpcUnsubscribed 3, Closed 3, Closed 2]\<rparr>)"
proof -
  have "rpcSubscription sample_sub = Some \<lparr>ident = 3, Err = Some 3\<rparr>"
    and "Err \<lparr>ident = 3, Err = Some 3\<rparr> \<noteq> None"
    and "logNotifications sample_sub = Some 3" and "errors sample_sub = Some 2"
    and "(3::nat) \<noteq> 2" and "3 \<notin> closed w4" and "2 \<notin> closed w4"
    by (simp_all add: sample_sub_def w4_def)
  from RpcLogSubscription_Unsubscribe_order[OF this] show ?thesis
    by (simp add: w4_def)
qed

text \<open>
  Every handle \<open>NewRpcLogSubscription\<close> returns without error, in a world whose closed
  channels were all made before, has its upstream subscription and two fresh streams. When
  the transaction manager never hands out a subscription without an error channel, the
  handle is open, and closing it unsubscribes upstream first and then closes both streams.
\<close>

lemma NewRpcLogSubscription_handle_open:
  assumes "NewRpcLogSubscription env initr job callback w = ((sub, None), w')"
    and "\<forall>c \<in> closed w. c < chans w"
  shows "\<exists>rpc. SubscribeToLogs env (Suc (chans w))
                 (ToFilterQueryFor (Head env) [Initiator.Address initr]) = Inr rpc \<and>
           rpcSubscription sub = Some rpc \<and>
           logNotifications sub = Some (Suc (chans w)) \<and> errors sub = Some (chans w) \<and>
           Suc (chans w) \<notin> closed w' \<and> chans w \<notin> closed w'"
proof -
  from assms(2) have fresh: "chans w \<notin> closed w" "Suc (chans w) \<notin> closed w"
    by fastforce+
  from assms(1) fresh show ?thesis
    by (auto simp: NewRpcLogSubscription_def make_chan_def emit_def Let_def split: sum.splits)
qed

lemma NewRpcLogSubscription_then_Unsubscribe:
  assumes "NewRpcLogSubscription env initr job callback w = ((sub, None), w')"
    and "\<forall>c \<in> closed w. c < chans w"
    and "\<forall>c fq rpc. SubscribeToLogs env c fq = Inr rpc \<longrightarrow> Err rpc \<noteq> None"
  shows "\<exists>rpc. rpcSubscription sub = Some rpc \<and>
     RpcLogSubscription_Unsubscribe sub w' =
       (Inr (), w'\<lparr>closed := insert (chans w) (insert (Suc (chans w)) (closed w')),
                    trace := trace w' @ [RpcUnsubscribed (ident rpc), Closed (Suc (chans w)),
                                         Closed (chans w)]\<rparr>)"
proof -
  from NewRpcLogSubscription_handle_open[OF assms(1,2)] obtain rpc where
    r: "SubscribeToLogs env (Suc (chans w))
          (ToFilterQueryFor (Head env) [Initiator.Address initr]) = Inr rpc"
    and s: "rpcSubscription sub = Some rpc"
    and l: "logNotifications sub = Some (Suc (chans w))" and e: "errors sub = Some (chans w)"
    and o: "Suc (chans w) \<notin> closed w'" "chans w \<notin> closed w'"
    by blast
  from assms(3) r have live: "Err rpc \<noteq> None" by blast
  have ne: "Suc (chans w) \<noteq> chans w" by simp
  from RpcLogSubscription_Unsubscribe_open[OF l e ne o] s live
  have "RpcLogSubscription_Unsubscribe sub w' =
       (Inr (), w'\<lparr>closed := insert (chans w) (insert (Suc (chans w)) (closed w')),
                    trace := trace w' @ [RpcUnsubscribed (ident rpc), Closed (Suc (chans w)),
                                         Closed (chans w)]\<rparr>)"
    by (simp add: upstream_unsubscribe_def)
  with s show ?thesis by blast
qed

text \<open>
  The guard of \<open>Unsubscribe\<close>: a zero-valued upstream subscription, whose \<open>Err()\<close> is
  nil, is left alone, and the two streams are closed all the same.
\<close>

lemma RpcLogSubscription_Unsubscribe_zero_upstream:
  "fst (NewRpcLogSubscription quiet_env runlog_initiator sample_job ReceiveRunLog w2)
     = (quiet_sub, None) \<and>
   RpcLogSubscription_Unsubscribe quiet_sub w4 =
     (Inr (), \<lparr>chans = 4, closed = {2, 3}, trace = [Closed 3, Closed 2]\<rparr>)"
proof -
  have "fst (NewRpcLogSubscription quiet_env runlog_initiator sample_job ReceiveRunLog w2)
     = (quiet_sub, None)"
    by (simp add: NewRpcLogSubscription_def make_chan_def quiet_env_def w2_def quiet_sub_def
        sample_sub_def Let_def numeral_3_eq_3 numeral_2_eq_2)
  moreover have "RpcLogSubscription_Unsubscribe quiet_sub w4 =
     (Inr (), \<lparr>chans = 4, closed = {2, 3}, trace = [Closed 3, Closed 2]\<rparr>)"
    by (simp add: quiet_sub_def sample_sub_def w4_def RpcLogSubscription_Unsubscribe_def
        close_chan_def emit_def insert_commute)
  ultimately show ?thesis by simp
qed

lemma RpcLogSubscription_Unsubscribe_intact:
  assumes "intact sub" and "distinct (streams sub)" and "set (streams sub) \<inter> closed w = {}"
  shows "RpcLogSubscription_Unsubscribe sub w =
     (Inr (), w\<lparr>closed := closed w \<union> set (streams sub),
                 trace := trace w @ close_effects sub\<rparr>)"
proof -
  from assms(1) obtain lc ec where ch: "logNotifications sub = Some lc" "errors sub = Some ec"
    by (auto simp: intact_def)
  then have st: "streams sub = [lc, ec]"
    by (simp add: streams_def)
  from assms(2,3) st have "lc \<noteq> ec" "lc \<notin> closed w" "ec \<notin> closed w"
    by auto
  from RpcLogSubscription_Unsubscribe_open[OF ch this] show ?thesis
    by (simp add: close_effects_def st insert_commute Un_commute)
qed

lemma unsubscribeEach_intact:
  assumes "\<forall>sub \<in> set subs. intact sub"
    and "distinct (concat (map streams subs))"
    and "set (concat (map streams subs)) \<inter> closed w = {}"
  shows "unsubscribeEach subs w =
     (Inr (), w\<lparr>closed := closed w \<union> set (concat (map streams subs)),
                 trace := trace w @ concat (map close_effects subs)\<rparr>)"
  using assms
proof (induction subs arbitrary: w)
  case Nil
  show ?case by simp
next
  case (Cons sub subs)
  define w1 where "w1 = w\<lparr>closed := closed w \<union> set (streams sub),
                 trace := trace w @ close_effects sub\<rparr>"
  from Cons.prems have a: "intact sub" "distinct (streams sub)" "set (streams sub) \<inter> closed w = {}"
    by auto
  have first: "RpcLogSubscription_Unsubscribe sub w = (Inr (), w1)"
    unfolding w1_def by (rule RpcLogSubscription_Unsubscribe_intact[OF a])
  from Cons.prems have b: "\<forall>s \<in> set subs. intact s" "distinct (concat (map streams subs))"
    by auto
  from Cons.prems have c: "set (concat (map streams subs)) \<inter> closed w1 = {}"
    by (auto simp: w1_def)
  from Cons.IH[OF b c] first show ?case
    by (simp add: w1_def Un_assoc)
qed

text \<open>
  Claim C7, amended: when every retained child has both streams, the streams of the
  children are pairwise distinct and none is closed yet, closing the handle does not
  fault and closes every child exactly once, in the order the handle holds them.
\<close>

theorem JobSubscription_Unsubscribe_closes_each_once:
  assumes "\<forall>sub \<in> set (unsubscribers js). intact sub"
    and "distinct (concat (map streams (unsubscribers js)))"
    and "set (concat (map streams (unsubscribers js))) \<inter> closed w = {}"
  shows "JobSubscription_Unsubscribe js w =
     (Inr (), w\<lparr>closed := closed w \<union> set (concat (map streams (unsubscribers js))),
                 trace := trace w @ concat (map close_effects (unsubscribers js))\<rparr>)"
  unfolding JobSubscription_Unsubscribe_def by (rule unsubscribeEach_intact[OF assms])

text \<open>
  Closing the sample handle closes its two children, one after the other.
\<close>

theorem JobSubscription_Unsubscribe_closes_each_once_witness:
  "JobSubscription_Unsubscribe sample_js w4 =
     (Inr (), \<lparr>chans = 4, closed = {0, 1, 2, 3},
               trace = [RpcUnsubscribed 1, Closed 1, Closed 0,
                        RpcUnsubscribed 3, Closed 3, Closed 2]\<rparr>)"
proof -
  have a: "\<forall>sub \<in> set (unsubscribers sample_js). intact sub"
    by (simp add: sample_js_def intact_def first_sub_def sample_sub_def)
  have b: "distinct (concat (map streams (unsubscribers sample_js)))"
    by (simp add: sample_js_def streams_def first_sub_def sample_sub_def)
  have c: "set (concat (map streams (unsubscribers sample_js))) \<inter> closed w4 = {}"
    by (simp add: w4_def)
  from JobSubscription_Unsubscribe_closes_each_once[OF a b c] show ?thesis
    by (auto simp add: sample_js_def streams_def close_effects_def upstream_unsubscribe_def
        first_sub_def sample_sub_def w4_def)
qed

text \<open>
  Claim C7 as stated fails: once the first child has been closed on its own, closing
  the handle panics at that child, and the second child is never closed.
\<close>

theorem JobSubscription_Unsubscribe_aborts_on_fault:
  "RpcLogSubscription_Unsubscribe first_sub w4 =
     (Inr (), \<lparr>chans = 4, closed = {0, 1}, trace = [RpcUnsubscribed 1, Closed 1, Closed 0]\<rparr>) \<and>
   JobSubscription_Unsubscribe sample_js
       \<lparr>chans = 4, closed = {0, 1}, trace = [RpcUnsubscribed 1, Closed 1, Closed 0]\<rparr> =
     (Inl CloseOfClosedChannel,
      \<lparr>chans = 4, closed = {0, 1},
        trace = [RpcUnsubscribed 1, Closed 1, Closed 0, RpcUnsubscribed 1]\<rparr>)"
  by (simp add: sample_js_def first_sub_def sample_sub_def w4_def JobSubscription_Unsubscribe_def
      RpcLogSubscription_Unsubscribe_def close_chan_def emit_def insert_commute)

text \<open>
  Every handle \<open>StartJobSubscription\<close> returns, in a world whose closed channels
  were all made before, meets the conditions: closing it closes each child once.
\<close>

lemma streams_success_of:
  "concat (map streams (success_of job (c, cb, initr, r))) = (if isl r then [] else [Suc c, c])"
  by (cases r) (simp_all add: streams_def)

lemma intact_success_of: "sub \<in> set (success_of job a) \<Longrightarrow> intact sub"
proof -
  assume m: "sub \<in> set (success_of job a)"
  obtain c cb initr r where a: "a = (c, cb, initr, r)"
    by (metis surj_pair)
  from m show ?thesis
    by (cases r) (auto simp: a intact_def)
qed

lemma streams_attempts:
  "set (concat (map streams (concat (map (success_of job) (attempts env c xs)))))
      \<subseteq> {c ..< c + 2 * length xs} \<and>
   distinct (concat (map streams (concat (map (success_of job) (attempts env c xs)))))"
proof (induction env c xs rule: attempts.induct)
  case (1 env c)
  show ?case by simp
next
  case (2 env c cb initr rest)
  define r where "r = SubscribeToLogs env (Suc c) (ToFilterQueryFor (Head env) [Initiator.Address initr])"
  define tl where "tl = concat (map streams (concat (map (success_of job) (attempts env (c + 2) rest))))"
  from 2 have IH: "set tl \<subseteq> {c + 2 ..< c + 2 + 2 * length rest}" "distinct tl"
    by (simp_all add: tl_def)
  have split: "concat (map streams (concat (map (success_of job) (attempts env c ((cb, initr) # rest)))))
      = (if isl r then [] else [Suc c, c]) @ tl"
    by (simp add: r_def tl_def streams_success_of del: success_of.simps)
  from IH have "Suc c \<notin> set tl" "c \<notin> set tl"
    by auto
  with IH show ?case
    unfolding split by auto
qed

lemma StartJobSubscription_handle_intact:
  assumes "StartJobSubscription env job w = ((js, err), w')"
    and "\<forall>c \<in> closed w. c < chans w"
  shows "(\<forall>sub \<in> set (unsubscribers js). intact sub) \<and>
     distinct (concat (map streams (unsubscribers js))) \<and>
     set (concat (map streams (unsubscribers js))) \<inter> closed w' = {}"
proof -
  define as where "as = attempts env (chans w) (logInitiators job)"
  note eq = StartJobSubscription_eq[OF assms(1), unfolded Let_def, folded as_def]
  from eq have cl: "closed w' = closed w" by simp
  have subs: "unsubscribers js = [] \<or> unsubscribers js = concat (map (success_of job) as)"
    using eq by (cases "\<forall>a \<in> set as. failed a") (simp_all add: zero_JobSubscription_def)
  from streams_attempts[of job env "chans w" "logInitiators job"]
  have st: "set (concat (map streams (concat (map (success_of job) as)))) \<subseteq> {chans w ..< chans w + 2 * length (logInitiators job)}"
    "distinct (concat (map streams (concat (map (success_of job) as))))"
    by (simp_all add: as_def)
  have int: "\<forall>sub \<in> set (concat (map (success_of job) as)). intact sub"
    using intact_success_of by auto
  from st(1) assms(2) have disj: "set (concat (map streams (concat (map (success_of job) as)))) \<inter> closed w = {}"
    by fastforce
  from subs show ?thesis
  proof
    assume "unsubscribers js = []"
    then show ?thesis by simp
  next
    assume "unsubscribers js = concat (map (success_of job) as)"
    with int st(2) disj cl show ?thesis by simp
  qed
qed

lemma StartJobSubscription_then_Unsubscribe:
  assumes "StartJobSubscription env job w = ((js, err), w')"
    and "\<forall>c \<in> closed w. c < chans w"
  shows "JobSubscription_Unsubscribe js w' =
     (Inr (), w'\<lparr>closed := closed w' \<union> set (concat (map streams (unsubscribers js))),
                  trace := trace w' @ concat (map close_effects (unsubscribers js))\<rparr>)"
proof -
  from StartJobSubscription_handle_intact[OF assms]
  have "\<forall>sub \<in> set (unsubscribers js). intact sub"
    and "distinct (concat (map streams (unsubscribers js)))"
    and "set (concat (map streams (unsubscribers js))) \<inter> closed w' = {}"
    by simp_all
  then show ?thesis
    unfolding JobSubscription_Unsubscribe_def by (rule unsubscribeEach_intact)
qed

end
